theory Spec2Isabelle
  imports Complex_Main "HOL-Library.Log_Nat"
begin

section \<open>JavaScript numbers\<close>

text \<open>
  The library \<^verbatim>\<open>src/lib/membership-function.ts\<close> computes on the TypeScript type
  \<^verbatim>\<open>number\<close>: IEEE 754 binary64 values. A number is a finite value, one of the two
  infinities, or NaN. Finite values are carried as the real number they denote. The
  sign of zero is not modelled: the comparisons and \<^verbatim>\<open>||\<close> do not observe it, and a
  division by zero is taken as a division by positive zero.
\<close>

datatype number = Fin real | PInf | NInf | NaN

text \<open>The relational operators \<^verbatim>\<open><\<close>, \<^verbatim>\<open><=\<close>, \<^verbatim>\<open>>\<close>, \<^verbatim>\<open>>=\<close> and \<^verbatim>\<open>===\<close>:
  every comparison with NaN is false.\<close>

fun num_lt :: "number \<Rightarrow> number \<Rightarrow> bool" where
  "num_lt (Fin x) (Fin y) = (x < y)"
| "num_lt NaN _ = False"
| "num_lt _ NaN = False"
| "num_lt PInf _ = False"
| "num_lt _ NInf = False"
| "num_lt NInf _ = True"
| "num_lt _ PInf = True"

fun strict_eq :: "number \<Rightarrow> number \<Rightarrow> bool" where
  "strict_eq NaN _ = False"
| "strict_eq _ NaN = False"
| "strict_eq u v = (u = v)"

definition num_le :: "number \<Rightarrow> number \<Rightarrow> bool" where
  "num_le u v = (num_lt u v \<or> strict_eq u v)"

definition num_gt :: "number \<Rightarrow> number \<Rightarrow> bool" where
  "num_gt u v = num_lt v u"

definition num_ge :: "number \<Rightarrow> number \<Rightarrow> bool" where
  "num_ge u v = num_le v u"

subsection \<open>Rounding to binary64\<close>

text \<open>
  Every arithmetic operation returns the exact result rounded to the nearest binary64
  value, ties to the value with an even significand. All binary64 values are integer
  multiples of \<open>2 ^ -1074\<close>. \<open>round53\<close> rounds a magnitude counted in these units to 53
  significant bits: a count of bit length \<open>k\<close> is rounded to a multiple of
  \<open>2 ^ (k - 53)\<close> (of 1 when \<open>k \<le> 53\<close>: the subnormal numbers and the first normal
  binade). A magnitude of at least \<open>2 ^ 1024 - 2 ^ 970\<close>, half a step beyond the largest
  finite value, overflows to an infinity.
\<close>

definition roundTiesToEven :: "real \<Rightarrow> int" where
  "roundTiesToEven y =
     (let f = \<lfloor>y\<rfloor>; d = y - of_int f
      in if d < 1 / 2 then f else if 1 / 2 < d then f + 1
         else if even f then f else f + 1)"

definition round53 :: "real \<Rightarrow> real" where
  "round53 n =
     (let k = floorlog 2 (nat \<lfloor>\<bar>n\<bar>\<rfloor>); q = 2 ^ (k - 53)
      in q * of_int (roundTiesToEven (n / q)))"

definition binary64 :: "real \<Rightarrow> number" where
  "binary64 r =
     (if 2 ^ 1024 - 2 ^ 970 \<le> \<bar>r\<bar> then (if 0 < r then PInf else NInf)
      else Fin (round53 (r * 2 ^ 1074) / 2 ^ 1074))"

subsection \<open>Arithmetic operators\<close>

fun num_neg :: "number \<Rightarrow> number" where
  "num_neg (Fin x) = Fin (- x)"
| "num_neg PInf = NInf"
| "num_neg NInf = PInf"
| "num_neg NaN = NaN"

fun num_add :: "number \<Rightarrow> number \<Rightarrow> number" where
  "num_add (Fin x) (Fin y) = binary64 (x + y)"
| "num_add NaN _ = NaN"
| "num_add _ NaN = NaN"
| "num_add PInf NInf = NaN"
| "num_add NInf PInf = NaN"
| "num_add PInf _ = PInf"
| "num_add NInf _ = NInf"
| "num_add _ PInf = PInf"
| "num_add _ NInf = NInf"

definition num_sub :: "number \<Rightarrow> number \<Rightarrow> number" where
  "num_sub u v = num_add u (num_neg v)"

text \<open>The sign of an infinite product or quotient.\<close>

definition signed_inf :: "bool \<Rightarrow> number" where
  "signed_inf positive = (if positive then PInf else NInf)"

fun num_mul :: "number \<Rightarrow> number \<Rightarrow> number" where
  "num_mul (Fin x) (Fin y) = binary64 (x * y)"
| "num_mul NaN _ = NaN"
| "num_mul _ NaN = NaN"
| "num_mul (Fin x) PInf = (if x = 0 then NaN else signed_inf (0 < x))"
| "num_mul (Fin x) NInf = (if x = 0 then NaN else signed_inf (x < 0))"
| "num_mul PInf (Fin y) = (if y = 0 then NaN else signed_inf (0 < y))"
| "num_mul NInf (Fin y) = (if y = 0 then NaN else signed_inf (y < 0))"
| "num_mul PInf PInf = PInf"
| "num_mul NInf NInf = PInf"
| "num_mul PInf NInf = NInf"
| "num_mul NInf PInf = NInf"

fun num_div :: "number \<Rightarrow> number \<Rightarrow> number" where
  "num_div (Fin x) (Fin y) =
     (if y = 0 then (if x = 0 then NaN else signed_inf (0 < x)) else binary64 (x / y))"
| "num_div NaN _ = NaN"
| "num_div _ NaN = NaN"
| "num_div (Fin x) _ = Fin 0"
| "num_div PInf (Fin y) = signed_inf (0 \<le> y)"
| "num_div NInf (Fin y) = signed_inf (y < 0)"
| "num_div _ _ = NaN"

text \<open>\<^verbatim>\<open>v || d\<close>: the right operand when the left one is falsy (zero or NaN).\<close>

definition or_else :: "number \<Rightarrow> number \<Rightarrow> number" where
  "or_else v d = (if v = Fin 0 \<or> v = NaN then d else v)"

definition Number_EPSILON :: number where
  "Number_EPSILON = Fin (1 / 2 ^ 52)"

subsection \<open>Library functions of \<^verbatim>\<open>Math\<close>\<close>

text \<open>
  ECMAScript fixes the results of \<^verbatim>\<open>Math.exp\<close> and \<^verbatim>\<open>Math.pow\<close> at the special
  values and leaves the others to the implementation, as an approximation of the
  mathematical result. They are taken here as the correctly rounded result; an engine
  may differ from it in the last bit. The theorems below use these functions only
  through the special values and through the fact that a result other than NaN is
  clamped into \<open>[0, 1]\<close>.
\<close>

fun Math_abs :: "number \<Rightarrow> number" where
  "Math_abs (Fin x) = Fin \<bar>x\<bar>"
| "Math_abs PInf = PInf"
| "Math_abs NInf = PInf"
| "Math_abs NaN = NaN"

fun Math_exp :: "number \<Rightarrow> number" where
  "Math_exp (Fin x) = binary64 (exp x)"
| "Math_exp PInf = PInf"
| "Math_exp NInf = Fin 0"
| "Math_exp NaN = NaN"

definition is_odd_integer :: "real \<Rightarrow> bool" where
  "is_odd_integer y = (of_int \<lfloor>y\<rfloor> = y \<and> odd \<lfloor>y\<rfloor>)"

fun Math_pow :: "number \<Rightarrow> number \<Rightarrow> number" where
  "Math_pow _ NaN = NaN"
| "Math_pow NaN e = (if e = Fin 0 then Fin 1 else NaN)"
| "Math_pow PInf (Fin y) = (if y = 0 then Fin 1 else if 0 < y then PInf else Fin 0)"
| "Math_pow PInf PInf = PInf"
| "Math_pow PInf NInf = Fin 0"
| "Math_pow NInf (Fin y) =
     (if y = 0 then Fin 1
      else if 0 < y then (if is_odd_integer y then NInf else PInf) else Fin 0)"
| "Math_pow NInf PInf = PInf"
| "Math_pow NInf NInf = Fin 0"
| "Math_pow (Fin x) PInf =
     (if 1 < \<bar>x\<bar> then PInf else if \<bar>x\<bar> = 1 then NaN else Fin 0)"
| "Math_pow (Fin x) NInf =
     (if 1 < \<bar>x\<bar> then Fin 0 else if \<bar>x\<bar> = 1 then NaN else PInf)"
| "Math_pow (Fin x) (Fin y) =
     (if y = 0 then Fin 1
      else if x = 0 then (if 0 < y then Fin 0 else PInf)
      else if 0 < x then binary64 (x powr y)
      else if of_int \<lfloor>y\<rfloor> \<noteq> y then NaN
      else binary64 ((if even \<lfloor>y\<rfloor> then 1 else - 1) * (\<bar>x\<bar> powr y)))"

section \<open>The membership function library\<close>

subsection \<open>Internal helpers\<close>

definition clamp01 :: "number \<Rightarrow> number" where
  "clamp01 v = (if num_lt v (Fin 0) then Fin 0 else if num_gt v (Fin 1) then Fin 1 else v)"

text \<open>The parameters have the static type \<^verbatim>\<open>number\<close>, so \<^verbatim>\<open>typeof v === "number"\<close>
  holds and \<^verbatim>\<open>isFiniteNumber\<close> is \<^verbatim>\<open>Number.isFinite\<close>.\<close>

fun isFiniteNumber :: "number \<Rightarrow> bool" where
  "isFiniteNumber (Fin _) = True"
| "isFiniteNumber _ = False"

text \<open>A thrown \<^verbatim>\<open>Error\<close> is the left injection, carrying the message.\<close>

type_synonym 'a result = "string + 'a"

definition finite_message :: "string \<Rightarrow> string \<Rightarrow> string" where
  "finite_message name label =
     name @ '': parameter '' @ [CHR 0x27] @ label @ [CHR 0x27] @ '' must be a finite number.''"

fun assertFiniteNumbers :: "string \<Rightarrow> (string \<times> number) list \<Rightarrow> unit result" where
  "assertFiniteNumbers name [] = Inr ()"
| "assertFiniteNumbers name ((label, v) # values) =
     (if \<not> isFiniteNumber v then Inl (finite_message name label)
      else assertFiniteNumbers name values)"

subsection \<open>The catalogue\<close>

definition triangular :: "number \<Rightarrow> number \<Rightarrow> number \<Rightarrow> number \<Rightarrow> number result" where
  "triangular x a b c =
     (case assertFiniteNumbers ''triangular'' [(''x'', x), (''a'', a), (''b'', b), (''c'', c)] of
        Inl e \<Rightarrow> Inl e
      | Inr _ \<Rightarrow>
          if \<not> (num_le a b \<and> num_le b c) then Inl ''triangular: require a <= b <= c''
          else if num_le x a \<or> num_ge x c then Inr (Fin 0)
          else if strict_eq x b then Inr (Fin 1)
          else if num_gt x a \<and> num_lt x b
            then Inr (clamp01 (num_div (num_sub x a) (or_else (num_sub b a) Number_EPSILON)))
          else if num_gt x b \<and> num_lt x c
            then Inr (clamp01 (num_div (num_sub c x) (or_else (num_sub c b) Number_EPSILON)))
          else Inr (Fin 0))"

definition trapezoidal ::
  "number \<Rightarrow> number \<Rightarrow> number \<Rightarrow> number \<Rightarrow> number \<Rightarrow> number result" where
  "trapezoidal x a b c d =
     (case assertFiniteNumbers ''trapezoidal''
             [(''x'', x), (''a'', a), (''b'', b), (''c'', c), (''d'', d)] of
        Inl e \<Rightarrow> Inl e
      | Inr _ \<Rightarrow>
          if \<not> (num_le a b \<and> num_le b c \<and> num_le c d)
            then Inl ''trapezoidal: require a <= b <= c <= d''
          else if num_le x a \<or> num_ge x d then Inr (Fin 0)
          else if num_ge x b \<and> num_le x c then Inr (Fin 1)
          else if num_gt x a \<and> num_lt x b
            then Inr (clamp01 (num_div (num_sub x a) (or_else (num_sub b a) Number_EPSILON)))
          else if num_gt x c \<and> num_lt x d
            then Inr (clamp01 (num_div (num_sub d x) (or_else (num_sub d c) Number_EPSILON)))
          else Inr (Fin 0))"

definition gaussian :: "number \<Rightarrow> number \<Rightarrow> number \<Rightarrow> number result" where
  "gaussian x mu sigma =
     (case assertFiniteNumbers ''gaussian'' [(''x'', x), (''mu'', mu), (''sigma'', sigma)] of
        Inl e \<Rightarrow> Inl e
      | Inr _ \<Rightarrow>
          if \<not> num_gt sigma (Fin 0) then Inl ''gaussian: require sigma > 0''
          else let z = num_div (num_sub x mu) sigma
               in Inr (clamp01 (Math_exp (num_mul (num_mul (Fin (- (1 / 2))) z) z))))"

definition generalizedBell :: "number \<Rightarrow> number \<Rightarrow> number \<Rightarrow> number \<Rightarrow> number result" where
  "generalizedBell x a b c =
     (case assertFiniteNumbers ''generalizedBell''
             [(''x'', x), (''a'', a), (''b'', b), (''c'', c)] of
        Inl e \<Rightarrow> Inl e
      | Inr _ \<Rightarrow>
          if strict_eq a (Fin 0) then Inl ''generalizedBell: require a != 0''
          else if \<not> num_gt b (Fin 0) then Inl ''generalizedBell: require b > 0''
          else let t = Math_abs (num_div (num_sub x c) a)
               in Inr (clamp01 (num_div (Fin 1)
                         (num_add (Fin 1) (Math_pow t (num_mul (Fin 2) b))))))"

definition sigmoid :: "number \<Rightarrow> number \<Rightarrow> number \<Rightarrow> number result" where
  "sigmoid x a c =
     (case assertFiniteNumbers ''sigmoid'' [(''x'', x), (''a'', a), (''c'', c)] of
        Inl e \<Rightarrow> Inl e
      | Inr _ \<Rightarrow>
          let v = num_div (Fin 1)
                    (num_add (Fin 1) (Math_exp (num_mul (num_neg a) (num_sub x c))))
          in Inr (clamp01 v))"

definition sCurve :: "number \<Rightarrow> number \<Rightarrow> number \<Rightarrow> number result" where
  "sCurve x a b =
     (case assertFiniteNumbers ''sCurve'' [(''x'', x), (''a'', a), (''b'', b)] of
        Inl e \<Rightarrow> Inl e
      | Inr _ \<Rightarrow>
          if \<not> num_lt a b then Inl ''sCurve: require a < b''
          else if num_le x a then Inr (Fin 0)
          else if num_ge x b then Inr (Fin 1)
          else let t = num_div (num_sub x a) (num_sub b a)
               in if num_le t (Fin (1 / 2)) then Inr (num_mul (num_mul (Fin 2) t) t)
                  else let u = num_sub (Fin 1) t
                       in Inr (num_sub (Fin 1) (num_mul (num_mul (Fin 2) u) u)))"

definition zCurve :: "number \<Rightarrow> number \<Rightarrow> number \<Rightarrow> number result" where
  "zCurve x a b =
     (case assertFiniteNumbers ''zCurve'' [(''x'', x), (''a'', a), (''b'', b)] of
        Inl e \<Rightarrow> Inl e
      | Inr _ \<Rightarrow>
          if \<not> num_lt a b then Inl ''zCurve: require a < b''
          else if num_le x a then Inr (Fin 1)
          else if num_ge x b then Inr (Fin 0)
          else let t = num_div (num_sub x a) (num_sub b a)
               in if num_le t (Fin (1 / 2))
                  then Inr (num_sub (Fin 1) (num_mul (num_mul (Fin 2) t) t))
                  else let u = num_sub (Fin 1) t
                       in Inr (num_mul (num_mul (Fin 2) u) u))"

definition piCurve ::
  "number \<Rightarrow> number \<Rightarrow> number \<Rightarrow> number \<Rightarrow> number \<Rightarrow> number result" where
  "piCurve x a b c d =
     (case assertFiniteNumbers ''piCurve''
             [(''x'', x), (''a'', a), (''b'', b), (''c'', c), (''d'', d)] of
        Inl e \<Rightarrow> Inl e
      | Inr _ \<Rightarrow>
          if \<not> (num_le a b \<and> num_le b c \<and> num_le c d)
            then Inl ''piCurve: require a <= b <= c <= d''
          else if num_le x a \<or> num_ge x d then Inr (Fin 0)
          else if num_ge x b \<and> num_le x c then Inr (Fin 1)
          else if num_gt x a \<and> num_lt x b then sCurve x a b
          else if num_gt x c \<and> num_lt x d then zCurve x c d
          else Inr (Fin 0))"

definition leftShoulder :: "number \<Rightarrow> number \<Rightarrow> number \<Rightarrow> number result" where
  "leftShoulder x a b = zCurve x a b"

definition rightShoulder :: "number \<Rightarrow> number \<Rightarrow> number \<Rightarrow> number result" where
  "rightShoulder x a b = sCurve x a b"

definition singleton :: "number \<Rightarrow> number \<Rightarrow> number result" where
  "singleton x c =
     (case assertFiniteNumbers ''singleton'' [(''x'', x), (''c'', c)] of
        Inl e \<Rightarrow> Inl e
      | Inr _ \<Rightarrow> Inr (if strict_eq x c then Fin 1 else Fin 0))"

definition complement :: "number \<Rightarrow> number result" where
  "complement mu =
     (if \<not> isFiniteNumber mu then Inl ''complement: mu must be a finite number''
      else Inr (clamp01 (num_sub (Fin 1) mu)))"

subsection \<open>Vocabulary of the error contract\<close>

text \<open>An error message names a function when it starts with that name, a colon and
  a space.\<close>

definition names_function :: "string \<Rightarrow> string \<Rightarrow> bool" where
  "names_function name msg = (take (length name + 2) msg = name @ '': '')"

text \<open>A result is a finiteness error of \<open>name\<close> when it is the message of
  \<^verbatim>\<open>assertFiniteNumbers\<close> for one of the labels.\<close>

definition finiteness_error :: "string \<Rightarrow> string list \<Rightarrow> 'a result \<Rightarrow> bool" where
  "finiteness_error name labels r = (\<exists>l \<in> set labels. r = Inl (finite_message name l))"

text \<open>A real number is a binary64 value when rounding leaves it unchanged. The
  arguments a caller can pass are such values.\<close>

definition is_binary64 :: "real \<Rightarrow> bool" where
  "is_binary64 r = (binary64 r = Fin r)"

section \<open>Basic facts\<close>

lemma num_le_Fin [simp]: "num_le (Fin x) (Fin y) = (x \<le> y)"
  by (auto simp: num_le_def)

lemma num_gt_Fin [simp]: "num_gt (Fin x) (Fin y) = (y < x)"
  by (simp add: num_gt_def)

lemma num_ge_Fin [simp]: "num_ge (Fin x) (Fin y) = (y \<le> x)"
  by (simp add: num_ge_def)

lemma isFiniteNumber_iff: "isFiniteNumber v = (\<exists>r. v = Fin r)"
  by (cases v) simp_all

text \<open>The validation loop succeeds exactly on lists of finite numbers, and otherwise
  reports the label of the first entry that is not finite.\<close>

lemma assertFiniteNumbers_ok:
  "(assertFiniteNumbers name vs = Inr u) = (\<forall>p \<in> set vs. isFiniteNumber (snd p))"
  by (induction vs) (auto split: if_splits)

lemma assertFiniteNumbers_error:
  "assertFiniteNumbers name vs = Inl e \<Longrightarrow> \<exists>l \<in> set (map fst vs). e = finite_message name l"
  by (induction vs) (auto split: if_splits)

lemma assertFiniteNumbers_cases:
  "assertFiniteNumbers name vs = Inr () \<and> (\<forall>p \<in> set vs. isFiniteNumber (snd p))
   \<or> (\<exists>l \<in> set (map fst vs). assertFiniteNumbers name vs = Inl (finite_message name l))
       \<and> \<not> (\<forall>p \<in> set vs. isFiniteNumber (snd p))"
proof (cases "assertFiniteNumbers name vs")
  case (Inl e)
  moreover from Inl have "\<not> (\<forall>p \<in> set vs. isFiniteNumber (snd p))"
    using assertFiniteNumbers_ok [of name vs "()"] by simp
  ultimately show ?thesis
    using assertFiniteNumbers_error [of name vs e] by auto
next
  case (Inr u)
  then show ?thesis
    using assertFiniteNumbers_ok [of name vs u] by simp
qed

section \<open>Rounding\<close>

subsection \<open>Rounding to an integer\<close>

text \<open>Rounding to the nearest integer: integers are fixed, the result is within the
  floor and the ceiling, and the function is monotone and odd.\<close>

lemma roundTiesToEven_of_int [simp]: "roundTiesToEven (of_int n) = n"
  by (simp add: roundTiesToEven_def)

lemma roundTiesToEven_0 [simp]: "roundTiesToEven 0 = 0"
  using roundTiesToEven_of_int [of 0] by simp

lemma roundTiesToEven_floor_le: "\<lfloor>y\<rfloor> \<le> roundTiesToEven y"
  by (simp add: roundTiesToEven_def Let_def)

lemma roundTiesToEven_le_ceiling: "roundTiesToEven y \<le> \<lceil>y\<rceil>"
proof (cases "of_int \<lfloor>y\<rfloor> = y")
  case True
  then obtain n where "y = of_int n" by metis
  then show ?thesis by simp
next
  case False
  then have "\<lceil>y\<rceil> = \<lfloor>y\<rfloor> + 1" by (simp add: ceiling_altdef)
  then show ?thesis by (simp add: roundTiesToEven_def Let_def)
qed

lemma roundTiesToEven_ge: "of_int n \<le> y \<Longrightarrow> n \<le> roundTiesToEven y"
  using roundTiesToEven_floor_le [of y] le_floor_iff [of n y] by linarith

lemma roundTiesToEven_le: "y \<le> of_int n \<Longrightarrow> roundTiesToEven y \<le> n"
  using roundTiesToEven_le_ceiling [of y] ceiling_le_iff [of y n] by linarith

lemma roundTiesToEven_mono: "x \<le> y \<Longrightarrow> roundTiesToEven x \<le> roundTiesToEven y"
proof (cases "\<lfloor>x\<rfloor> = \<lfloor>y\<rfloor>")
  case True
  assume "x \<le> y"
  with True show ?thesis by (auto simp: roundTiesToEven_def Let_def)
next
  case False
  assume "x \<le> y"
  then have "\<lfloor>x\<rfloor> \<le> \<lfloor>y\<rfloor>" by (rule floor_mono)
  with False have "\<lfloor>x\<rfloor> + 1 \<le> \<lfloor>y\<rfloor>" by simp
  moreover have "roundTiesToEven x \<le> \<lfloor>x\<rfloor> + 1"
    by (simp add: roundTiesToEven_def Let_def)
  ultimately show ?thesis using roundTiesToEven_floor_le [of y] by linarith
qed

lemma roundTiesToEven_minus: "roundTiesToEven (- y) = - roundTiesToEven y"
proof (cases "of_int \<lfloor>y\<rfloor> = y")
  case True
  then obtain n where "y = of_int n" by metis
  then show ?thesis by (simp flip: of_int_minus)
next
  case False
  then have fl: "\<lfloor>- y\<rfloor> = - \<lfloor>y\<rfloor> - 1"
    by (metis ceiling_altdef ceiling_def add_diff_cancel_right' minus_diff_eq
        diff_minus_eq_add minus_add_distrib uminus_add_conv_diff)
  show ?thesis
    unfolding roundTiesToEven_def Let_def fl by (auto simp: field_simps)
qed

lemma roundTiesToEven_error: "\<bar>of_int (roundTiesToEven y) - y\<bar> \<le> 1 / 2"
  unfolding roundTiesToEven_def Let_def by (auto simp: abs_le_iff)

lemma roundTiesToEven_nearest_even:
  assumes "even m" and "of_int m - 1 / 2 \<le> y" and "y \<le> of_int m + 1 / 2"
  shows "roundTiesToEven y = m"
proof (cases "y < of_int m")
  case True
  then have "\<lfloor>y\<rfloor> = m - 1" using assms(2) by (intro floor_unique) simp_all
  then show ?thesis
    unfolding roundTiesToEven_def Let_def using assms(1,2) True by auto
next
  case False
  then have "\<lfloor>y\<rfloor> = m" using assms(3) by (intro floor_unique) simp_all
  then show ?thesis
    unfolding roundTiesToEven_def Let_def using assms(1,3) False by auto
qed

subsection \<open>Rounding to 53 significant bits\<close>

text \<open>The result is an integer, keeps powers of two as bounds, is monotone on the
  non-negative numbers, fixes every integer of at most 53 bits scaled by a power of two,
  and is off by at most half a step of the binade.\<close>

lemma round53_0 [simp]: "round53 0 = 0"
  by (simp add: round53_def)

lemma round53_minus: "round53 (- n) = - round53 n"
  by (simp add: round53_def Let_def roundTiesToEven_minus)

lemma round53_nonneg: "0 \<le> n \<Longrightarrow> 0 \<le> round53 n"
  using roundTiesToEven_ge [of 0] by (simp add: round53_def Let_def)

lemma round53_integer: "\<exists>i::int. round53 n = of_int i"
proof -
  have "round53 n = of_int (2 ^ (floorlog 2 (nat \<lfloor>\<bar>n\<bar>\<rfloor>) - 53)
            * roundTiesToEven (n / 2 ^ (floorlog 2 (nat \<lfloor>\<bar>n\<bar>\<rfloor>) - 53)))"
    by (simp add: round53_def Let_def)
  then show ?thesis by blast
qed

lemma round53_lower:
  assumes "2 ^ j \<le> n"
  shows "2 ^ j \<le> round53 n"
proof -
  define k where "k = floorlog 2 (nat \<lfloor>\<bar>n\<bar>\<rfloor>)"
  define q :: real where "q = 2 ^ (k - 53)"
  have n1: "1 \<le> n" using assms one_le_power [of "2::real" j] by linarith
  have "(2::int) ^ j \<le> \<lfloor>n\<rfloor>" using assms by (simp add: le_floor_iff)
  then have nat_n: "2 ^ j \<le> nat \<lfloor>\<bar>n\<bar>\<rfloor>" using n1 by (simp add: le_nat_iff)
  then have kj: "Suc j \<le> k" unfolding k_def by (intro floorlog_ge_SucI) simp_all
  have "0 < nat \<lfloor>\<bar>n\<bar>\<rfloor>" using nat_n by (metis less_le_trans zero_less_numeral zero_less_power)
  then have "2 ^ (k - 1) \<le> nat \<lfloor>\<bar>n\<bar>\<rfloor>"
    unfolding k_def using floorlog_bounds [of "nat \<lfloor>\<bar>n\<bar>\<rfloor>" 2] by simp
  then have low: "2 ^ (k - 1) \<le> n" using n1
    by (metis (mono_tags, opaque_lifting) abs_of_nonneg le_floor_iff le_nat_iff of_int_of_nat_eq of_nat_numeral of_nat_power order_trans zero_le_one zero_le_floor)
  have split: "k - 1 = (k - 53) + (k - 1 - (k - 53))" using kj by simp
  have "(2::real) ^ (k - 1) = q * 2 ^ (k - 1 - (k - 53))"
    unfolding q_def by (subst split) (simp only: power_add)
  then have qM: "(2::real) ^ (k - 1) = q * of_int (2 ^ (k - 1 - (k - 53)))" by simp
  have qpos: "0 < q" by (simp add: q_def)
  have "of_int (2 ^ (k - 1 - (k - 53))) \<le> n / q"
    using low qM qpos by (simp add: field_simps)
  then have "2 ^ (k - 1 - (k - 53)) \<le> roundTiesToEven (n / q)" by (rule roundTiesToEven_ge)
  then have "of_int (2 ^ (k - 1 - (k - 53))) \<le> (of_int (roundTiesToEven (n / q)) :: real)"
    by (simp only: of_int_le_iff)
  then have "2 ^ (k - 1) \<le> q * of_int (roundTiesToEven (n / q))"
    unfolding qM using qpos by simp
  moreover have "(2::real) ^ j \<le> 2 ^ (k - 1)" using kj by (intro power_increasing) simp_all
  moreover have "round53 n = q * of_int (roundTiesToEven (n / q))"
    by (simp add: round53_def Let_def k_def q_def)
  ultimately show ?thesis by linarith
qed

lemma round53_upper:
  assumes "0 \<le> n" and "n \<le> 2 ^ j"
  shows "round53 n \<le> 2 ^ j"
proof -
  define k where "k = floorlog 2 (nat \<lfloor>\<bar>n\<bar>\<rfloor>)"
  define q :: real where "q = 2 ^ (k - 53)"
  have "\<lfloor>n\<rfloor> \<le> 2 ^ j" using assms(2) by (simp add: floor_le_iff) 
  moreover have "(0::int) < 2 ^ j" by simp
  ultimately have "\<lfloor>n\<rfloor> < 2 * 2 ^ j" by linarith
  then have "nat \<lfloor>\<bar>n\<bar>\<rfloor> < 2 ^ Suc j" using assms(1) by (simp add: nat_less_iff)
  then have kj: "k \<le> Suc j" unfolding k_def by (intro floorlog_leI) simp_all
  have split: "j = (k - 53) + (j - (k - 53))" using kj by simp
  have "(2::real) ^ j = q * 2 ^ (j - (k - 53))"
    unfolding q_def by (subst split) (simp only: power_add)
  then have qM: "(2::real) ^ j = q * of_int (2 ^ (j - (k - 53)))" by simp
  have qpos: "0 < q" by (simp add: q_def)
  have "n / q \<le> of_int (2 ^ (j - (k - 53)))"
    using assms(2) qM qpos by (simp add: field_simps)
  then have "roundTiesToEven (n / q) \<le> 2 ^ (j - (k - 53))" by (rule roundTiesToEven_le)
  then have "(of_int (roundTiesToEven (n / q)) :: real) \<le> of_int (2 ^ (j - (k - 53)))"
    by (simp only: of_int_le_iff)
  then have "q * of_int (roundTiesToEven (n / q)) \<le> 2 ^ j"
    unfolding qM using qpos by simp
  moreover have "round53 n = q * of_int (roundTiesToEven (n / q))"
    by (simp add: round53_def Let_def k_def q_def)
  ultimately show ?thesis by linarith
qed

lemma round53_mono:
  assumes "0 \<le> n" and "n \<le> m"
  shows "round53 n \<le> round53 m"
proof -
  define kn where "kn = floorlog 2 (nat \<lfloor>\<bar>n\<bar>\<rfloor>)"
  define km where "km = floorlog 2 (nat \<lfloor>\<bar>m\<bar>\<rfloor>)"
  have m0: "0 \<le> m" using assms by simp
  have "nat \<lfloor>\<bar>n\<bar>\<rfloor> \<le> nat \<lfloor>\<bar>m\<bar>\<rfloor>"
    using assms m0 by (simp add: floor_mono nat_mono)
  then have le: "kn \<le> km" unfolding kn_def km_def by (rule floorlog_mono)
  show ?thesis
  proof (cases "kn = km")
    case True
    have "n / 2 ^ (km - 53) \<le> m / 2 ^ (km - 53)"
      using assms(2) by (simp add: divide_right_mono)
    then have "roundTiesToEven (n / 2 ^ (km - 53)) \<le> roundTiesToEven (m / 2 ^ (km - 53))"
      by (rule roundTiesToEven_mono)
    then have "(2::real) ^ (km - 53) * of_int (roundTiesToEven (n / 2 ^ (km - 53)))
        \<le> 2 ^ (km - 53) * of_int (roundTiesToEven (m / 2 ^ (km - 53)))"
      by (intro mult_left_mono) simp_all
    then show ?thesis
      using True by (simp add: round53_def Let_def kn_def km_def)
  next
    case False
    with le have lt: "kn < km" by simp
    have "nat \<lfloor>\<bar>n\<bar>\<rfloor> < 2 ^ kn" unfolding kn_def by (rule floorlog_leD) simp_all
    then have "\<lfloor>n\<rfloor> < 2 ^ kn" using assms(1) by (simp add: nat_less_iff)
    then have "n < 2 ^ kn" by (simp add: floor_less_iff)
    then have up: "round53 n \<le> 2 ^ kn" using assms(1) by (intro round53_upper) simp_all
    have "0 < km" using lt by simp
    then have "0 < nat \<lfloor>\<bar>m\<bar>\<rfloor>"
      unfolding km_def using floorlog_eq_zero_iff [of 2 "nat \<lfloor>\<bar>m\<bar>\<rfloor>"] by simp
    then have "2 ^ (km - 1) \<le> nat \<lfloor>\<bar>m\<bar>\<rfloor>"
      unfolding km_def using floorlog_bounds [of "nat \<lfloor>\<bar>m\<bar>\<rfloor>" 2] by simp
    then have "(2::int) ^ (km - 1) \<le> \<lfloor>m\<rfloor>" using m0 by (simp add: le_nat_iff)
    then have "(2::real) ^ (km - 1) \<le> m" by (simp add: le_floor_iff)
    then have "2 ^ (km - 1) \<le> round53 m" by (rule round53_lower)
    moreover have "(2::real) ^ kn \<le> 2 ^ (km - 1)"
      using lt by (intro power_increasing) simp_all
    ultimately show ?thesis using up by linarith
  qed
qed

lemma round53_exact:
  assumes "\<bar>i\<bar> < 2 ^ 53"
  shows "round53 (of_int i * 2 ^ e) = of_int i * 2 ^ e"
proof (cases "i = 0")
  case True
  then show ?thesis by simp
next
  case False
  define n :: real where "n = of_int i * 2 ^ e"
  define k where "k = floorlog 2 (nat \<lfloor>\<bar>n\<bar>\<rfloor>)"
  have "\<bar>n\<bar> = of_int (\<bar>i\<bar> * 2 ^ e)" by (simp add: n_def abs_mult)
  then have "\<lfloor>\<bar>n\<bar>\<rfloor> = \<bar>i\<bar> * 2 ^ e" by (simp only: floor_of_int)
  then have "nat \<lfloor>\<bar>n\<bar>\<rfloor> = nat \<bar>i\<bar> * 2 ^ e" by (simp add: nat_mult_distrib nat_power_eq)
  moreover have "0 < nat \<bar>i\<bar>" using False by simp
  ultimately have k: "k = floorlog 2 (nat \<bar>i\<bar>) + e" unfolding k_def by simp
  have "nat \<bar>i\<bar> < 2 ^ 53" using assms by (simp add: nat_less_iff)
  then have "floorlog 2 (nat \<bar>i\<bar>) \<le> 53" by (intro floorlog_leI) simp_all
  with k have ke: "k - 53 \<le> e" by simp
  then have split: "e = (k - 53) + (e - (k - 53))" by simp
  have "n = 2 ^ (k - 53) * (of_int i * 2 ^ (e - (k - 53)))"
    unfolding n_def by (subst split) (simp only: power_add mult_ac)
  then have nq: "n / 2 ^ (k - 53) = of_int (i * 2 ^ (e - (k - 53)))"
    and nq': "2 ^ (k - 53) * of_int (i * 2 ^ (e - (k - 53))) = n" by simp_all
  have "round53 n = 2 ^ (k - 53) * of_int (roundTiesToEven (n / 2 ^ (k - 53)))"
    by (simp add: round53_def Let_def k_def)
  also have "\<dots> = 2 ^ (k - 53) * of_int (i * 2 ^ (e - (k - 53)))"
    by (simp only: nq roundTiesToEven_of_int)
  also have "\<dots> = n" by (rule nq')
  finally show ?thesis by (simp add: n_def)
qed

lemma floorlog_eqI:
  assumes "2 ^ (k - 1) \<le> x" and "x < 2 ^ k" and "0 < k"
  shows "floorlog 2 x = k"
proof (rule antisym)
  show "floorlog 2 x \<le> k" using assms(2) by (intro floorlog_leI) simp_all
  show "k \<le> floorlog 2 x" using assms(1) by (intro floorlog_geI) simp_all
qed

lemma round53_binade:
  assumes "2 ^ (k - 1) \<le> n" and "n < 2 ^ k" and "0 < k"
  shows "round53 n = 2 ^ (k - 53) * of_int (roundTiesToEven (n / 2 ^ (k - 53)))"
proof -
  have n0: "0 \<le> n" using assms(1) zero_le_power [of "2::real" "k - 1"] by linarith
  have "(2::int) ^ (k - 1) \<le> \<lfloor>n\<rfloor>" using assms(1) by (simp add: le_floor_iff)
  then have lo: "2 ^ (k - 1) \<le> nat \<lfloor>\<bar>n\<bar>\<rfloor>" using n0 by (simp add: le_nat_iff)
  have "\<lfloor>n\<rfloor> < 2 ^ k" using assms(2) by (simp add: floor_less_iff)
  then have hi: "nat \<lfloor>\<bar>n\<bar>\<rfloor> < 2 ^ k" using n0 by (simp add: nat_less_iff)
  have "floorlog 2 (nat \<lfloor>\<bar>n\<bar>\<rfloor>) = k" using lo hi assms(3) by (rule floorlog_eqI)
  then show ?thesis by (simp add: round53_def Let_def)
qed

lemma round53_error:
  assumes "2 ^ (k - 1) \<le> n" and "n < 2 ^ k" and "0 < k"
  shows "\<bar>round53 n - n\<bar> \<le> 2 ^ (k - 53) / 2"
proof -
  define q :: real where "q = 2 ^ (k - 53)"
  have q: "0 < q" by (simp add: q_def)
  have "round53 n = q * of_int (roundTiesToEven (n / q))"
    unfolding q_def using assms by (rule round53_binade)
  then have "round53 n - n = q * (of_int (roundTiesToEven (n / q)) - n / q)"
    using q by (simp add: field_simps)
  then have "\<bar>round53 n - n\<bar> = q * \<bar>of_int (roundTiesToEven (n / q)) - n / q\<bar>"
    using q by (simp add: abs_mult)
  also have "\<dots> \<le> q * (1 / 2)"
    using q roundTiesToEven_error [of "n / q"] by (intro mult_left_mono) simp_all
  finally show ?thesis by (simp add: q_def)
qed

lemma round53_near_power:
  assumes "54 \<le> j" and "\<bar>d\<bar> \<le> 2 ^ (j - 54)"
  shows "round53 (2 ^ j + d) = 2 ^ j"
proof -
  define w :: real where "w = 2 ^ (j - 54)"
  have w: "0 < w" by (simp add: w_def)
  have pj: "(2::real) ^ j = 2 ^ 54 * w"
  proof -
    have "(2::real) ^ (54 + (j - 54)) = 2 ^ 54 * 2 ^ (j - 54)" by (rule power_add)
    moreover have "54 + (j - 54) = j" using assms(1) by simp
    ultimately show ?thesis unfolding w_def by (simp only:)
  qed
  have p52: "(2::real) ^ (j - 52) = 4 * w"
  proof -
    have "j - 52 = 2 + (j - 54)" using assms(1) by simp
    then show ?thesis unfolding w_def by (simp only: power_add) simp
  qed
  have p53: "(2::real) ^ (j - 53) = 2 * w"
  proof -
    have "j - 53 = 1 + (j - 54)" using assms(1) by simp
    then show ?thesis unfolding w_def by (simp only: power_add) simp
  qed
  have p1: "(2::real) ^ (j - 1) = 2 ^ 53 * w"
  proof -
    have "j - 1 = 53 + (j - 54)" using assms(1) by simp
    then show ?thesis unfolding w_def by (simp only: power_add)
  qed
  have pS: "(2::real) ^ Suc j = 2 ^ 55 * w" using pj by simp
  have d: "- w \<le> d" "d \<le> w" using assms(2) by (simp_all add: w_def abs_le_iff)
  show ?thesis
  proof (cases "0 \<le> d")
    case True
    have "2 ^ (Suc j - 1) \<le> 2 ^ j + d" using True by simp
    moreover have "2 ^ j + d < 2 ^ Suc j" unfolding pj pS using d w by simp
    ultimately have "round53 (2 ^ j + d)
        = 2 ^ (Suc j - 53) * of_int (roundTiesToEven ((2 ^ j + d) / 2 ^ (Suc j - 53)))"
      by (intro round53_binade) simp_all
    moreover have "Suc j - 53 = j - 52" using assms(1) by simp
    ultimately have r: "round53 (2 ^ j + d)
        = 4 * w * of_int (roundTiesToEven ((2 ^ 54 * w + d) / (4 * w)))"
      by (simp only: p52 pj)
    have "(2 ^ 54 * w + d) / (4 * w) = 2 ^ 52 + d / (4 * w)"
      using w by (simp add: field_simps)
    moreover have "0 \<le> d / (4 * w)" using True w by simp
    moreover have "d / (4 * w) \<le> 1 / 4" using d w by (simp add: field_simps)
    ultimately have "roundTiesToEven ((2 ^ 54 * w + d) / (4 * w)) = 2 ^ 52"
      by (intro roundTiesToEven_nearest_even) simp_all
    with r show ?thesis by (simp add: pj)
  next
    case False
    have "2 ^ (j - 1) \<le> 2 ^ j + d" unfolding pj p1 using d w by simp
    moreover have "2 ^ j + d < 2 ^ j" using False by simp
    ultimately have "round53 (2 ^ j + d)
        = 2 ^ (j - 53) * of_int (roundTiesToEven ((2 ^ j + d) / 2 ^ (j - 53)))"
      using assms(1) by (intro round53_binade) simp_all
    then have r: "round53 (2 ^ j + d)
        = 2 * w * of_int (roundTiesToEven ((2 ^ 54 * w + d) / (2 * w)))"
      by (simp only: p53 pj)
    have "(2 ^ 54 * w + d) / (2 * w) = 2 ^ 53 + d / (2 * w)"
      using w by (simp add: field_simps)
    moreover have "d / (2 * w) \<le> 0" using False w by (simp add: field_simps)
    moreover have "- (1 / 2) \<le> d / (2 * w)" using d w by (simp add: field_simps)
    ultimately have "roundTiesToEven ((2 ^ 54 * w + d) / (2 * w)) = 2 ^ 53"
      by (intro roundTiesToEven_nearest_even) simp_all
    with r show ?thesis by (simp add: pj)
  qed
qed

subsection \<open>Rounding to binary64\<close>

lemma binary64_not_NaN [simp]: "binary64 r \<noteq> NaN"
  unfolding binary64_def by (simp only: if_distrib [of "\<lambda>v. v \<noteq> NaN"] number.distinct simp_thms if_cancel split: if_splits)

lemma binary64_0 [simp]: "binary64 0 = Fin 0"
  by (simp add: binary64_def)

lemma binary64_finite:
  "\<bar>r\<bar> < 2 ^ 1024 - 2 ^ 970 \<Longrightarrow> binary64 r = Fin (round53 (r * 2 ^ 1074) / 2 ^ 1074)"
  unfolding binary64_def by (rule if_not_P) (simp only: not_le)

lemma binary64_overflow: "2 ^ 1024 - 2 ^ 970 \<le> r \<Longrightarrow> binary64 r = PInf"
proof -
  assume a: "2 ^ 1024 - 2 ^ 970 \<le> r"
  have "(0::real) < 2 ^ 1024 - 2 ^ 970" by simp
  from this a have "0 < r" by (rule less_le_trans)
  moreover from this a have "2 ^ 1024 - 2 ^ 970 \<le> \<bar>r\<bar>" by simp
  ultimately show ?thesis unfolding binary64_def by (simp only: if_True)
qed

lemma binary64_minus: "binary64 (- r) = num_neg (binary64 r)"
proof (cases "2 ^ 1024 - 2 ^ 970 \<le> \<bar>r\<bar>")
  case True
  then have "r \<noteq> 0" by auto
  with True show ?thesis unfolding binary64_def by (simp only: abs_minus_cancel if_True) auto
next
  case False
  then show ?thesis
    unfolding binary64_def
    by (simp only: abs_minus_cancel if_False mult_minus_left round53_minus minus_divide_left num_neg.simps)
qed

lemma binary64_lower:
  assumes "2 ^ j \<le> r * 2 ^ 1074"
  shows "binary64 r = PInf \<or> (\<exists>q. binary64 r = Fin q \<and> 2 ^ j / 2 ^ 1074 \<le> q)"
proof (cases "2 ^ 1024 - 2 ^ 970 \<le> \<bar>r\<bar>")
  case True
  have "0 < r * 2 ^ 1074" using assms zero_less_power [of "2::real" j] by linarith
  then have "0 < r" by (simp add: zero_less_mult_iff)
  with True show ?thesis unfolding binary64_def by (simp only: if_True simp_thms)
next
  case False
  have "2 ^ j \<le> round53 (r * 2 ^ 1074)" using assms by (rule round53_lower)
  then have "2 ^ j / 2 ^ 1074 \<le> round53 (r * 2 ^ 1074) / 2 ^ 1074"
    by (rule divide_right_mono) simp
  with False show ?thesis unfolding binary64_def by (simp only: if_False number.inject simp_thms)
qed

lemma binary64_nonneg:
  assumes "0 \<le> r"
  shows "binary64 r = PInf \<or> (\<exists>q. binary64 r = Fin q \<and> 0 \<le> q)"
proof (cases "2 ^ 1024 - 2 ^ 970 \<le> \<bar>r\<bar>")
  case True
  then have "r \<noteq> 0" by auto
  with assms have "0 < r" by simp
  with True show ?thesis unfolding binary64_def by (simp only: if_True simp_thms)
next
  case False
  have "0 \<le> round53 (r * 2 ^ 1074)" using assms by (intro round53_nonneg) simp
  then have "0 \<le> round53 (r * 2 ^ 1074) / 2 ^ 1074" by simp
  with False show ?thesis unfolding binary64_def by (simp only: if_False number.inject simp_thms)
qed

lemma binary64_nonpos:
  assumes "r \<le> 0"
  shows "binary64 r = NInf \<or> (\<exists>q. binary64 r = Fin q \<and> q \<le> 0)"
proof -
  have "0 \<le> - r" using assms by simp
  from binary64_nonneg [OF this] show ?thesis
    by (cases "binary64 r") (auto simp: binary64_minus)
qed

lemma binary64_ge_1:
  assumes "1 \<le> r"
  shows "binary64 r = PInf \<or> (\<exists>q. binary64 r = Fin q \<and> 1 \<le> q)"
proof -
  have "(2::real) ^ 1074 \<le> r * 2 ^ 1074" using assms by simp
  from binary64_lower [OF this] show ?thesis by simp
qed

lemma binary64_ge_half:
  assumes "1 / 2 \<le> r"
  shows "binary64 r = PInf \<or> (\<exists>q. binary64 r = Fin q \<and> 1 / 2 \<le> q)"
proof -
  have "1 / 2 * 2 ^ 1074 \<le> r * 2 ^ 1074" using assms by (intro mult_right_mono) simp_all
  then have "(2::real) ^ 1073 \<le> r * 2 ^ 1074" by simp
  from binary64_lower [OF this] show ?thesis by simp
qed

lemma binary64_mono_finite:
  assumes "0 \<le> r" and "r \<le> s" and "binary64 s = Fin v"
  shows "\<exists>u. binary64 r = Fin u \<and> 0 \<le> u \<and> u \<le> v"
proof -
  have "\<not> 2 ^ 1024 - 2 ^ 970 \<le> \<bar>s\<bar>"
    using assms(3) unfolding binary64_def by (auto split: if_splits)
  then have s: "\<bar>s\<bar> < 2 ^ 1024 - 2 ^ 970" by (simp only: not_le)
  then have "\<bar>r\<bar> < 2 ^ 1024 - 2 ^ 970" using assms(1,2) by linarith
  then have br: "binary64 r = Fin (round53 (r * 2 ^ 1074) / 2 ^ 1074)" by (rule binary64_finite)
  from s have "binary64 s = Fin (round53 (s * 2 ^ 1074) / 2 ^ 1074)" by (rule binary64_finite)
  with assms(3) have v: "v = round53 (s * 2 ^ 1074) / 2 ^ 1074" by simp
  have "0 \<le> r * 2 ^ 1074" using assms(1) by simp
  moreover have "r * 2 ^ 1074 \<le> s * 2 ^ 1074" using assms(2) by simp
  ultimately have "round53 (r * 2 ^ 1074) \<le> round53 (s * 2 ^ 1074)" by (rule round53_mono)
  then have "round53 (r * 2 ^ 1074) / 2 ^ 1074 \<le> v"
    unfolding v by (rule divide_right_mono) simp
  moreover have "0 \<le> round53 (r * 2 ^ 1074) / 2 ^ 1074"
    using round53_nonneg [OF \<open>0 \<le> r * 2 ^ 1074\<close>] by simp
  ultimately show ?thesis using br by blast
qed

lemma binary64_exact:
  assumes "\<bar>i\<bar> < 2 ^ 53" and "e \<le> 2045"
  shows "binary64 (of_int i * 2 ^ e / 2 ^ 1074) = Fin (of_int i * 2 ^ e / 2 ^ 1074)"
proof -
  define S :: real where "S = 2 ^ 1074"
  have S: "0 < S" by (simp only: S_def zero_less_power zero_less_numeral)
  define r where "r = of_int i * 2 ^ e / S"
  have rS: "r * S = of_int i * 2 ^ e" using S by (simp add: r_def)
  have "\<bar>i\<bar> \<le> 2 ^ 53 - 1" using assms(1) by simp
  then have "(of_int \<bar>i\<bar> :: real) \<le> of_int (2 ^ 53 - 1)" by (simp only: of_int_le_iff)
  then have "\<bar>of_int i :: real\<bar> \<le> 2 ^ 53 - 1" by simp
  moreover have "(2::real) ^ e \<le> 2 ^ 2045" using assms(2) by (intro power_increasing) simp_all
  ultimately have "\<bar>of_int i :: real\<bar> * 2 ^ e \<le> (2 ^ 53 - 1) * 2 ^ 2045"
    by (intro mult_mono) simp_all
  then have "\<bar>of_int i :: real\<bar> * 2 ^ e / S \<le> (2 ^ 53 - 1) * 2 ^ 2045 / S"
    using S by (intro divide_right_mono) simp_all
  moreover have "\<bar>r\<bar> = \<bar>of_int i :: real\<bar> * 2 ^ e / S"
    using S by (simp add: r_def abs_mult)
  moreover have "(2 ^ 53 - 1) * 2 ^ 2045 / S < 2 ^ 1024 - 2 ^ 970" unfolding S_def by simp
  ultimately have "\<bar>r\<bar> < 2 ^ 1024 - 2 ^ 970" by linarith
  then have "binary64 r = Fin (round53 (r * S) / S)" unfolding S_def by (rule binary64_finite)
  also have "\<dots> = Fin r" unfolding rS round53_exact [OF assms(1)] by (simp add: r_def)
  finally show ?thesis unfolding r_def S_def .
qed

lemma binary64_exactI:
  assumes "r * 2 ^ 1074 = of_int i * 2 ^ e" and "\<bar>i\<bar> < 2 ^ 53" and "e \<le> 2045"
  shows "binary64 r = Fin r"
proof -
  have "r = of_int i * 2 ^ e / 2 ^ 1074" using assms(1) by (simp add: field_simps)
  then show ?thesis using binary64_exact [OF assms(2,3)] by (simp only:)
qed

lemma is_binary64_small: "is_binary64 0" "is_binary64 1" "is_binary64 2"
  unfolding is_binary64_def
    apply simp
   apply (rule binary64_exactI [of _ 1 1074]; simp)
  apply (rule binary64_exactI [of _ 1 1075]; simp)
  done

lemma is_binary64_quarter: "is_binary64 (1 / 4)" "is_binary64 (3 / 4)"
  unfolding is_binary64_def
  by (rule binary64_exactI [of _ 1 1072], simp, simp, simp)
     (rule binary64_exactI [of _ 3 1072], simp, simp, simp)

lemma binary64_1 [simp]: "binary64 1 = Fin 1"
  using is_binary64_small(2) by (simp only: is_binary64_def)

lemma binary64_half [simp]: "binary64 (1 / 2) = Fin (1 / 2)"
  by (rule binary64_exactI [of _ 1 1073]) simp_all

lemma binary64_unit_interval:
  assumes "0 \<le> r" and "r \<le> 1"
  shows "\<exists>u. binary64 r = Fin u \<and> 0 \<le> u \<and> u \<le> 1"
  using assms binary64_1 by (rule binary64_mono_finite)

lemma binary64_half_interval:
  assumes "0 \<le> r" and "r \<le> 1 / 2"
  shows "\<exists>u. binary64 r = Fin u \<and> 0 \<le> u \<and> u \<le> 1 / 2"
  using assms binary64_half by (rule binary64_mono_finite)

lemma binary64_near_1:
  assumes "\<bar>e\<bar> \<le> 1 / 2 ^ 54"
  shows "binary64 (1 + e) = Fin 1"
proof -
  have "\<bar>e\<bar> \<le> 1" using assms by (rule order_trans) simp
  then have "\<bar>1 + e\<bar> \<le> 2" by (simp add: abs_le_iff)
  moreover have "(2::real) < 2 ^ 1024 - 2 ^ 970" by simp
  ultimately have "\<bar>1 + e\<bar> < 2 ^ 1024 - 2 ^ 970" by (rule le_less_trans)
  then have b: "binary64 (1 + e) = Fin (round53 ((1 + e) * 2 ^ 1074) / 2 ^ 1074)"
    by (rule binary64_finite)
  have "\<bar>e * 2 ^ 1074\<bar> \<le> 1 / 2 ^ 54 * 2 ^ 1074"
    using assms by (simp only: abs_mult) (simp add: mult_right_mono)
  also have "(1::real) / 2 ^ 54 * 2 ^ 1074 = 2 ^ (1074 - 54)" by simp
  finally have "round53 (2 ^ 1074 + e * 2 ^ 1074) = 2 ^ 1074"
    by (intro round53_near_power) simp_all
  moreover have "(1 + e) * 2 ^ 1074 = 2 ^ 1074 + e * 2 ^ 1074" by (simp only: distrib_right mult_1)
  ultimately have "round53 ((1 + e) * 2 ^ 1074) = 2 ^ 1074" by (simp only:)
  with b show ?thesis by (simp only:) simp
qed

lemma abs_diff_scaled:
  assumes "0 < (S::real)"
  shows "\<bar>a - r * S\<bar> / S = \<bar>a / S - r\<bar>"
proof -
  have "a / S - r = (a - r * S) / S" using assms by (simp add: field_simps)
  then show ?thesis using assms by simp
qed

lemma binary64_upper_half:
  assumes "1 / 2 \<le> r" and "r \<le> 1"
  shows "\<exists>u. binary64 r = Fin u \<and> \<bar>u - r\<bar> \<le> 1 / 2 ^ 54"
proof (cases "r = 1")
  case True
  then show ?thesis by simp
next
  case False
  with assms(2) have r1: "r < 1" by simp
  have "(2::real) < 2 ^ 1024 - 2 ^ 970" by simp
  then have "\<bar>r\<bar> < 2 ^ 1024 - 2 ^ 970" using assms r1 by linarith
  then have b: "binary64 r = Fin (round53 (r * 2 ^ 1074) / 2 ^ 1074)" by (rule binary64_finite)
  have "1 / 2 * 2 ^ 1074 \<le> r * 2 ^ 1074" using assms(1) by (intro mult_right_mono) simp_all
  then have lo: "2 ^ (1074 - 1) \<le> r * 2 ^ 1074" by simp
  have hi: "r * 2 ^ 1074 < 2 ^ 1074" using r1 by simp
  have "\<bar>round53 (r * 2 ^ 1074) - r * 2 ^ 1074\<bar> \<le> 2 ^ (1074 - 53) / 2"
    using lo hi by (rule round53_error) simp
  then have "\<bar>round53 (r * 2 ^ 1074) - r * 2 ^ 1074\<bar> / 2 ^ 1074 \<le> 2 ^ (1074 - 53) / 2 / 2 ^ 1074"
    by (rule divide_right_mono) simp
  moreover have "\<bar>round53 (r * 2 ^ 1074) - r * 2 ^ 1074\<bar> / 2 ^ 1074
      = \<bar>round53 (r * 2 ^ 1074) / 2 ^ 1074 - r\<bar>"
    by (rule abs_diff_scaled) simp
  moreover have "(2::real) ^ (1074 - 53) / 2 / 2 ^ 1074 = 1 / 2 ^ 54" by simp
  ultimately have "\<bar>round53 (r * 2 ^ 1074) / 2 ^ 1074 - r\<bar> \<le> 1 / 2 ^ 54" by (simp only:)
  with b show ?thesis by blast
qed

lemma is_binary64_units:
  assumes "is_binary64 r"
  shows "\<exists>i::int. r * 2 ^ 1074 = of_int i"
proof -
  from assms have "binary64 r = Fin r" by (simp only: is_binary64_def)
  then have "\<not> 2 ^ 1024 - 2 ^ 970 \<le> \<bar>r\<bar>"
    unfolding binary64_def by (auto split: if_splits)
  then have "\<bar>r\<bar> < 2 ^ 1024 - 2 ^ 970" by (simp only: not_le)
  then have "binary64 r = Fin (round53 (r * 2 ^ 1074) / 2 ^ 1074)" by (rule binary64_finite)
  with \<open>binary64 r = Fin r\<close> have "round53 (r * 2 ^ 1074) / 2 ^ 1074 = r" by simp
  then have "r * 2 ^ 1074 = round53 (r * 2 ^ 1074)" by (simp add: field_simps)
  with round53_integer [of "r * 2 ^ 1074"] show ?thesis by (simp only:)
qed

text \<open>Gradual underflow: the difference of two distinct binary64 values does not round
  to zero.\<close>

lemma binary64_diff_pos:
  assumes "is_binary64 p" and "is_binary64 q" and "p < q"
  shows "binary64 (q - p) = PInf \<or> (\<exists>v. binary64 (q - p) = Fin v \<and> 0 < v)"
proof -
  obtain i j :: int where i: "p * 2 ^ 1074 = of_int i" and j: "q * 2 ^ 1074 = of_int j"
    using assms(1,2) is_binary64_units by blast
  have "p * 2 ^ 1074 < q * 2 ^ 1074" using assms(3) by simp
  then have "i < j" unfolding i j by (simp only: of_int_less_iff)
  then have "1 \<le> j - i" by simp
  then have "(1::real) \<le> of_int (j - i)" by (simp only: of_int_1_le_iff)
  also have "\<dots> = (q - p) * 2 ^ 1074" by (simp only: of_int_diff left_diff_distrib i j)
  finally have "(2::real) ^ 0 \<le> (q - p) * 2 ^ 1074" by simp
  from binary64_lower [OF this]
  show ?thesis by (auto intro: less_le_trans [of 0 "2 ^ 0 / 2 ^ 1074"])
qed

section \<open>The operators on finite numbers\<close>

lemma clamp01_simps [simp]:
  "clamp01 (Fin q) = Fin (if q < 0 then 0 else if 1 < q then 1 else q)"
  "clamp01 PInf = Fin 1"
  "clamp01 NInf = Fin 0"
  "clamp01 NaN = NaN"
  by (simp_all add: clamp01_def num_gt_def)

lemma num_sub_Fin [simp]: "num_sub (Fin x) (Fin y) = binary64 (x - y)"
  by (simp add: num_sub_def)

lemma or_else_difference:
  assumes "is_binary64 p" and "is_binary64 q" and "p < q"
  shows "or_else (num_sub (Fin q) (Fin p)) Number_EPSILON = num_sub (Fin q) (Fin p)"
  using binary64_diff_pos [OF assms] by (auto simp: or_else_def)

lemma complement_Fin: "complement (Fin m) = Inr (clamp01 (binary64 (1 - m)))"
  by (simp add: complement_def)

text \<open>Both curves at a difference that overflows.\<close>

lemma sCurve_overflow: "sCurve (Fin (2 ^ 1023)) (Fin (- (2 ^ 1023))) (Fin (3 * 2 ^ 1022)) = Inr NaN"
proof -
  have "binary64 (2 ^ 1023 - - (2 ^ 1023)) = PInf"
    by (rule binary64_overflow) simp
  moreover have "binary64 (3 * 2 ^ 1022 - - (2 ^ 1023)) = PInf"
    by (rule binary64_overflow) simp
  ultimately show ?thesis
    by (simp add: sCurve_def num_le_def Let_def num_sub_def)
qed

lemma zCurve_overflow: "zCurve (Fin (2 ^ 1023)) (Fin (- (2 ^ 1023))) (Fin (3 * 2 ^ 1022)) = Inr NaN"
proof -
  have "binary64 (2 ^ 1023 - - (2 ^ 1023)) = PInf"
    by (rule binary64_overflow) simp
  moreover have "binary64 (3 * 2 ^ 1022 - - (2 ^ 1023)) = PInf"
    by (rule binary64_overflow) simp
  ultimately show ?thesis
    by (simp add: zCurve_def num_le_def Let_def num_sub_def)
qed

section \<open>Validation\<close>

text \<open>Each function either passes its finiteness check, all arguments being finite, or
  throws the finiteness error of its own name, whatever the other checks would say.\<close>

lemma triangular_nonfinite:
  "\<not> (isFiniteNumber x \<and> isFiniteNumber a \<and> isFiniteNumber b \<and> isFiniteNumber c)
   \<Longrightarrow> finiteness_error ''triangular'' [''x'', ''a'', ''b'', ''c''] (triangular x a b c)"
  using assertFiniteNumbers_cases
          [of "''triangular''" "[(''x'', x), (''a'', a), (''b'', b), (''c'', c)]"]
  by (auto simp: triangular_def finiteness_error_def)

lemma trapezoidal_nonfinite:
  "\<not> (isFiniteNumber x \<and> isFiniteNumber a \<and> isFiniteNumber b \<and> isFiniteNumber c
       \<and> isFiniteNumber d)
   \<Longrightarrow> finiteness_error ''trapezoidal'' [''x'', ''a'', ''b'', ''c'', ''d'']
         (trapezoidal x a b c d)"
  using assertFiniteNumbers_cases
          [of "''trapezoidal''" "[(''x'', x), (''a'', a), (''b'', b), (''c'', c), (''d'', d)]"]
  by (auto simp: trapezoidal_def finiteness_error_def)

lemma gaussian_nonfinite:
  "\<not> (isFiniteNumber x \<and> isFiniteNumber mu \<and> isFiniteNumber sigma)
   \<Longrightarrow> finiteness_error ''gaussian'' [''x'', ''mu'', ''sigma''] (gaussian x mu sigma)"
  using assertFiniteNumbers_cases
          [of "''gaussian''" "[(''x'', x), (''mu'', mu), (''sigma'', sigma)]"]
  by (auto simp: gaussian_def finiteness_error_def)

lemma generalizedBell_nonfinite:
  "\<not> (isFiniteNumber x \<and> isFiniteNumber a \<and> isFiniteNumber b \<and> isFiniteNumber c)
   \<Longrightarrow> finiteness_error ''generalizedBell'' [''x'', ''a'', ''b'', ''c'']
         (generalizedBell x a b c)"
  using assertFiniteNumbers_cases
          [of "''generalizedBell''" "[(''x'', x), (''a'', a), (''b'', b), (''c'', c)]"]
  by (auto simp: generalizedBell_def finiteness_error_def)

lemma sigmoid_nonfinite:
  "\<not> (isFiniteNumber x \<and> isFiniteNumber a \<and> isFiniteNumber c)
   \<Longrightarrow> finiteness_error ''sigmoid'' [''x'', ''a'', ''c''] (sigmoid x a c)"
  using assertFiniteNumbers_cases
          [of "''sigmoid''" "[(''x'', x), (''a'', a), (''c'', c)]"]
  by (auto simp: sigmoid_def finiteness_error_def)

lemma sCurve_nonfinite:
  "\<not> (isFiniteNumber x \<and> isFiniteNumber a \<and> isFiniteNumber b)
   \<Longrightarrow> finiteness_error ''sCurve'' [''x'', ''a'', ''b''] (sCurve x a b)"
  using assertFiniteNumbers_cases
          [of "''sCurve''" "[(''x'', x), (''a'', a), (''b'', b)]"]
  by (auto simp: sCurve_def finiteness_error_def)

lemma zCurve_nonfinite:
  "\<not> (isFiniteNumber x \<and> isFiniteNumber a \<and> isFiniteNumber b)
   \<Longrightarrow> finiteness_error ''zCurve'' [''x'', ''a'', ''b''] (zCurve x a b)"
  using assertFiniteNumbers_cases
          [of "''zCurve''" "[(''x'', x), (''a'', a), (''b'', b)]"]
  by (auto simp: zCurve_def finiteness_error_def)

lemma piCurve_nonfinite:
  "\<not> (isFiniteNumber x \<and> isFiniteNumber a \<and> isFiniteNumber b \<and> isFiniteNumber c
       \<and> isFiniteNumber d)
   \<Longrightarrow> finiteness_error ''piCurve'' [''x'', ''a'', ''b'', ''c'', ''d''] (piCurve x a b c d)"
  using assertFiniteNumbers_cases
          [of "''piCurve''" "[(''x'', x), (''a'', a), (''b'', b), (''c'', c), (''d'', d)]"]
  by (auto simp: piCurve_def finiteness_error_def)

lemma singleton_nonfinite:
  "\<not> (isFiniteNumber x \<and> isFiniteNumber c)
   \<Longrightarrow> finiteness_error ''singleton'' [''x'', ''c''] (singleton x c)"
  using assertFiniteNumbers_cases [of "''singleton''" "[(''x'', x), (''c'', c)]"]
  by (auto simp: singleton_def finiteness_error_def)

text \<open>With finite arguments, a violated shape constraint throws the constraint error.\<close>

lemma triangular_constraint:
  "\<not> (a \<le> b \<and> b \<le> c)
   \<Longrightarrow> triangular (Fin x) (Fin a) (Fin b) (Fin c) = Inl ''triangular: require a <= b <= c''"
  by (simp add: triangular_def)

lemma trapezoidal_constraint:
  "\<not> (a \<le> b \<and> b \<le> c \<and> c \<le> d)
   \<Longrightarrow> trapezoidal (Fin x) (Fin a) (Fin b) (Fin c) (Fin d)
       = Inl ''trapezoidal: require a <= b <= c <= d''"
  by (simp add: trapezoidal_def)

lemma gaussian_constraint:
  "\<not> 0 < sigma
   \<Longrightarrow> gaussian (Fin x) (Fin mu) (Fin sigma) = Inl ''gaussian: require sigma > 0''"
  by (simp add: gaussian_def)

lemma generalizedBell_constraint:
  "a = 0 \<or> \<not> 0 < b
   \<Longrightarrow> generalizedBell (Fin x) (Fin a) (Fin b) (Fin c)
       = Inl (if a = 0 then ''generalizedBell: require a != 0''
              else ''generalizedBell: require b > 0'')"
  by (auto simp: generalizedBell_def)

lemma sCurve_constraint:
  "\<not> a < b \<Longrightarrow> sCurve (Fin x) (Fin a) (Fin b) = Inl ''sCurve: require a < b''"
  by (simp add: sCurve_def)

lemma zCurve_constraint:
  "\<not> a < b \<Longrightarrow> zCurve (Fin x) (Fin a) (Fin b) = Inl ''zCurve: require a < b''"
  by (simp add: zCurve_def)

lemma piCurve_constraint:
  "\<not> (a \<le> b \<and> b \<le> c \<and> c \<le> d)
   \<Longrightarrow> piCurve (Fin x) (Fin a) (Fin b) (Fin c) (Fin d)
       = Inl ''piCurve: require a <= b <= c <= d''"
  by (simp add: piCurve_def)

text \<open>A finiteness error names the function that ran the check.\<close>

lemma finiteness_error_names:
  "finiteness_error name labels r \<Longrightarrow> r = Inl m \<Longrightarrow> names_function name m"
  by (auto simp: finiteness_error_def names_function_def finite_message_def)

text \<open>Every error of a function that validates its own arguments starts with the
  name of that function.\<close>

lemma triangular_error_names:
  assumes "triangular x a b c = Inl m"
  shows "names_function ''triangular'' m"
proof (cases "isFiniteNumber x \<and> isFiniteNumber a \<and> isFiniteNumber b \<and> isFiniteNumber c")
  case False
  from triangular_nonfinite [OF False] assms show ?thesis by (rule finiteness_error_names)
next
  case True
  with assms show ?thesis
    by (auto simp: isFiniteNumber_iff triangular_def Let_def names_function_def
             split: if_splits)
qed

lemma trapezoidal_error_names:
  assumes "trapezoidal x a b c d = Inl m"
  shows "names_function ''trapezoidal'' m"
proof (cases "isFiniteNumber x \<and> isFiniteNumber a \<and> isFiniteNumber b \<and> isFiniteNumber c \<and> isFiniteNumber d")
  case False
  from trapezoidal_nonfinite [OF False] assms show ?thesis by (rule finiteness_error_names)
next
  case True
  with assms show ?thesis
    by (auto simp: isFiniteNumber_iff trapezoidal_def Let_def names_function_def
             split: if_splits)
qed

lemma gaussian_error_names:
  assumes "gaussian x a b = Inl m"
  shows "names_function ''gaussian'' m"
proof (cases "isFiniteNumber x \<and> isFiniteNumber a \<and> isFiniteNumber b")
  case False
  from gaussian_nonfinite [OF False] assms show ?thesis by (rule finiteness_error_names)
next
  case True
  with assms show ?thesis
    by (auto simp: isFiniteNumber_iff gaussian_def Let_def names_function_def
             split: if_splits)
qed

lemma generalizedBell_error_names:
  assumes "generalizedBell x a b c = Inl m"
  shows "names_function ''generalizedBell'' m"
proof (cases "isFiniteNumber x \<and> isFiniteNumber a \<and> isFiniteNumber b \<and> isFiniteNumber c")
  case False
  from generalizedBell_nonfinite [OF False] assms show ?thesis by (rule finiteness_error_names)
next
  case True
  with assms show ?thesis
    by (auto simp: isFiniteNumber_iff generalizedBell_def Let_def names_function_def
             split: if_splits)
qed

lemma sigmoid_error_names:
  assumes "sigmoid x a b = Inl m"
  shows "names_function ''sigmoid'' m"
proof (cases "isFiniteNumber x \<and> isFiniteNumber a \<and> isFiniteNumber b")
  case False
  from sigmoid_nonfinite [OF False] assms show ?thesis by (rule finiteness_error_names)
next
  case True
  with assms show ?thesis
    by (auto simp: isFiniteNumber_iff sigmoid_def Let_def names_function_def
             split: if_splits)
qed

lemma sCurve_error_names:
  assumes "sCurve x a b = Inl m"
  shows "names_function ''sCurve'' m"
proof (cases "isFiniteNumber x \<and> isFiniteNumber a \<and> isFiniteNumber b")
  case False
  from sCurve_nonfinite [OF False] assms show ?thesis by (rule finiteness_error_names)
next
  case True
  with assms show ?thesis
    by (auto simp: isFiniteNumber_iff sCurve_def Let_def names_function_def
             split: if_splits)
qed

lemma zCurve_error_names:
  assumes "zCurve x a b = Inl m"
  shows "names_function ''zCurve'' m"
proof (cases "isFiniteNumber x \<and> isFiniteNumber a \<and> isFiniteNumber b")
  case False
  from zCurve_nonfinite [OF False] assms show ?thesis by (rule finiteness_error_names)
next
  case True
  with assms show ?thesis
    by (auto simp: isFiniteNumber_iff zCurve_def Let_def names_function_def
             split: if_splits)
qed

lemma piCurve_error_names:
  assumes "piCurve x a b c d = Inl m"
  shows "names_function ''piCurve'' m"
proof (cases "isFiniteNumber x \<and> isFiniteNumber a \<and> isFiniteNumber b \<and> isFiniteNumber c \<and> isFiniteNumber d")
  case False
  from piCurve_nonfinite [OF False] assms show ?thesis by (rule finiteness_error_names)
next
  case True
  with assms show ?thesis
    by (auto simp: isFiniteNumber_iff piCurve_def sCurve_def zCurve_def Let_def names_function_def
             split: if_splits)
qed

lemma singleton_error_names:
  assumes "singleton x a = Inl m"
  shows "names_function ''singleton'' m"
proof (cases "isFiniteNumber x \<and> isFiniteNumber a")
  case False
  from singleton_nonfinite [OF False] assms show ?thesis by (rule finiteness_error_names)
next
  case True
  with assms show ?thesis
    by (auto simp: isFiniteNumber_iff singleton_def Let_def names_function_def
             split: if_splits)
qed

lemma complement_error_names:
  "complement mu = Inl m \<Longrightarrow> names_function ''complement'' m"
  by (auto simp: complement_def names_function_def split: if_splits)

section \<open>The quadratic curves in binary64 arithmetic\<close>

text \<open>The two quadratic pieces: \<open>2 * t * t\<close> for \<open>t\<close> in \<open>[0, 1/2]\<close> is in \<open>[0, 1/2]\<close>,
  its complement \<open>1 - 2 * t * t\<close> is in \<open>[1/2, 1]\<close>, and their computed sum is 1.\<close>

lemma double_square:
  assumes "0 \<le> t" and "t \<le> 1 / 2"
  shows "\<exists>p. num_mul (num_mul (Fin 2) (Fin t)) (Fin t) = Fin p \<and> 0 \<le> p \<and> p \<le> 1 / 2"
proof -
  have "0 \<le> 2 * t" "2 * t \<le> 1" using assms by simp_all
  then obtain w where w: "binary64 (2 * t) = Fin w" "0 \<le> w" "w \<le> 1"
    using binary64_unit_interval by blast
  have "0 \<le> w * t" using w(2) assms(1) by simp
  moreover have "w * t \<le> 1 * (1 / 2)" using w assms by (intro mult_mono) simp_all
  ultimately obtain p where "binary64 (w * t) = Fin p" "0 \<le> p" "p \<le> 1 / 2"
    using binary64_half_interval [of "w * t"] by auto
  with w(1) show ?thesis by simp
qed

lemma one_minus_lower_half:
  assumes "0 \<le> p" and "p \<le> 1 / 2"
  shows "\<exists>z. num_sub (Fin 1) (Fin p) = Fin z \<and> 1 / 2 \<le> z \<and> z \<le> 1
           \<and> num_add (Fin p) (Fin z) = Fin 1 \<and> num_add (Fin z) (Fin p) = Fin 1"
proof -
  have r: "1 / 2 \<le> 1 - p" "1 - p \<le> 1" "0 \<le> 1 - p" using assms by simp_all
  from binary64_upper_half [OF r(1,2)]
  obtain z where z: "binary64 (1 - p) = Fin z" "\<bar>z - (1 - p)\<bar> \<le> 1 / 2 ^ 54" by blast
  from binary64_unit_interval [OF r(3,2)] z(1) have "z \<le> 1" by simp
  moreover from binary64_ge_half [OF r(1)] z(1) have "1 / 2 \<le> z" by simp
  moreover have "binary64 (1 + (z - (1 - p))) = Fin 1" using z(2) by (rule binary64_near_1)
  then have "binary64 (p + z) = Fin 1" "binary64 (z + p) = Fin 1"
    by (simp_all add: algebra_simps)
  ultimately show ?thesis using z(1) by simp
qed

lemma one_minus_upper_half:
  assumes "1 / 2 < t" and "t \<le> 1"
  shows "\<exists>u. num_sub (Fin 1) (Fin t) = Fin u \<and> 0 \<le> u \<and> u \<le> 1 / 2"
  using binary64_half_interval [of "1 - t"] assms by simp

text \<open>The quotient \<open>t = (x - a) / (b - a)\<close> of a point strictly between \<open>a\<close> and \<open>b\<close>: it is
  a number of \<open>[0, 1]\<close>, unless \<open>x - a\<close> overflows.\<close>

lemma ramp_quotient:
  assumes "is_binary64 a" and "is_binary64 b" and "a < x" and "x < b"
    and "num_sub (Fin x) (Fin a) \<noteq> PInf"
  shows "\<exists>t. num_div (num_sub (Fin x) (Fin a)) (num_sub (Fin b) (Fin a)) = Fin t
             \<and> 0 \<le> t \<and> t \<le> 1"
proof -
  have "0 \<le> x - a" using assms(3) by simp
  from binary64_nonneg [OF this] assms(5)
  obtain p where p: "binary64 (x - a) = Fin p" "0 \<le> p" by auto
  have ab: "a < b" using assms(3,4) by simp
  from binary64_diff_pos [OF assms(1,2) ab]
  show ?thesis
  proof
    assume "binary64 (b - a) = PInf"
    with p show ?thesis by simp
  next
    assume "\<exists>v. binary64 (b - a) = Fin v \<and> 0 < v"
    then obtain v where v: "binary64 (b - a) = Fin v" "0 < v" by blast
    have "x - a \<le> b - a" using assms(4) by simp
    from binary64_mono_finite [OF \<open>0 \<le> x - a\<close> this v(1)] p(1) have "p \<le> v" by simp
    then have "0 \<le> p / v" "p / v \<le> 1" using p(2) v(2) by simp_all
    from binary64_unit_interval [OF this] p(1) v show ?thesis by simp
  qed
qed

lemma sCurve_ramp:
  assumes "a < x" and "x < b"
  shows "sCurve (Fin x) (Fin a) (Fin b)
         = (let t = num_div (num_sub (Fin x) (Fin a)) (num_sub (Fin b) (Fin a))
            in if num_le t (Fin (1 / 2)) then Inr (num_mul (num_mul (Fin 2) t) t)
               else let u = num_sub (Fin 1) t
                    in Inr (num_sub (Fin 1) (num_mul (num_mul (Fin 2) u) u)))"
  using assms by (simp add: sCurve_def)

lemma zCurve_ramp:
  assumes "a < x" and "x < b"
  shows "zCurve (Fin x) (Fin a) (Fin b)
         = (let t = num_div (num_sub (Fin x) (Fin a)) (num_sub (Fin b) (Fin a))
            in if num_le t (Fin (1 / 2))
               then Inr (num_sub (Fin 1) (num_mul (num_mul (Fin 2) t) t))
               else let u = num_sub (Fin 1) t
                    in Inr (num_mul (num_mul (Fin 2) u) u))"
  using assms by (simp add: zCurve_def)

text \<open>Apart from the overflow of \<open>x - a\<close>, the two curves are complementary in
  binary64 arithmetic, and both stay in \<open>[0, 1]\<close>.\<close>

lemma sCurve_zCurve_complementary:
  assumes "is_binary64 a" and "is_binary64 b" and "a < b"
    and "num_sub (Fin x) (Fin a) \<noteq> PInf"
  shows "\<exists>s z. sCurve (Fin x) (Fin a) (Fin b) = Inr (Fin s)
              \<and> zCurve (Fin x) (Fin a) (Fin b) = Inr (Fin z)
              \<and> 0 \<le> s \<and> s \<le> 1 \<and> 0 \<le> z \<and> z \<le> 1
              \<and> num_add (Fin s) (Fin z) = Fin 1"
proof -
  consider "x \<le> a" | "b \<le> x" | "a < x" "x < b" by linarith
  then show ?thesis
  proof cases
    case 1
    then show ?thesis using assms(3) by (simp add: sCurve_def zCurve_def)
  next
    case 2
    then show ?thesis using assms(3) by (simp add: sCurve_def zCurve_def)
  next
    case 3
    from ramp_quotient [OF assms(1,2) 3 assms(4)]
    obtain t where t: "num_div (num_sub (Fin x) (Fin a)) (num_sub (Fin b) (Fin a)) = Fin t"
      "0 \<le> t" "t \<le> 1" by blast
    show ?thesis
    proof (cases "t \<le> 1 / 2")
      case True
      from double_square [OF t(2) True]
      obtain p where p: "num_mul (num_mul (Fin 2) (Fin t)) (Fin t) = Fin p" "0 \<le> p" "p \<le> 1 / 2"
        by blast
      from one_minus_lower_half [OF p(2,3)]
      obtain z where z: "num_sub (Fin 1) (Fin p) = Fin z" "1 / 2 \<le> z" "z \<le> 1"
        "num_add (Fin p) (Fin z) = Fin 1" by blast
      have "sCurve (Fin x) (Fin a) (Fin b) = Inr (Fin p)"
        unfolding sCurve_ramp [OF 3] t(1) using True p(1) by (simp only: Let_def num_le_Fin if_True)
      moreover have "zCurve (Fin x) (Fin a) (Fin b) = Inr (Fin z)"
        unfolding zCurve_ramp [OF 3] t(1) using True p(1) z(1)
        by (simp only: Let_def num_le_Fin if_True)
      ultimately show ?thesis using p z by (intro exI [of _ p] exI [of _ z]) simp
    next
      case False
      then have "1 / 2 < t" by simp
      from one_minus_upper_half [OF this t(3)]
      obtain u where u: "num_sub (Fin 1) (Fin t) = Fin u" "0 \<le> u" "u \<le> 1 / 2" by blast
      from double_square [OF u(2,3)]
      obtain p where p: "num_mul (num_mul (Fin 2) (Fin u)) (Fin u) = Fin p" "0 \<le> p" "p \<le> 1 / 2"
        by blast
      from one_minus_lower_half [OF p(2,3)]
      obtain s where s: "num_sub (Fin 1) (Fin p) = Fin s" "1 / 2 \<le> s" "s \<le> 1"
        "num_add (Fin s) (Fin p) = Fin 1" by blast
      have "sCurve (Fin x) (Fin a) (Fin b) = Inr (Fin s)"
        unfolding sCurve_ramp [OF 3] t(1) using False u(1) p(1) s(1)
        by (simp only: Let_def num_le_Fin if_False)
      moreover have "zCurve (Fin x) (Fin a) (Fin b) = Inr (Fin p)"
        unfolding zCurve_ramp [OF 3] t(1) using False u(1) p(1)
        by (simp only: Let_def num_le_Fin if_False)
      ultimately show ?thesis using p s by (intro exI [of _ s] exI [of _ p]) simp
    qed
  qed
qed

section \<open>The range of the results\<close>

text \<open>A clamped result is NaN or a number of \<open>[0, 1]\<close>, since \<^verbatim>\<open>clamp01\<close> lets only NaN
  through unchanged; \<open>gaussian\<close> never computes NaN, and \<open>singleton\<close> returns 0 or 1.\<close>

lemma clamp01_range: "clamp01 v = NaN \<or> (\<exists>q. clamp01 v = Fin q \<and> 0 \<le> q \<and> q \<le> 1)"
  by (cases v) auto

lemma triangular_range:
  assumes "triangular x a b c = Inr v"
  shows "v = NaN \<or> (\<exists>q. v = Fin q \<and> 0 \<le> q \<and> q \<le> 1)"
  using assms clamp01_range
  by (auto simp: triangular_def split: sum.splits if_splits)

lemma trapezoidal_range:
  assumes "trapezoidal x a b c d = Inr v"
  shows "v = NaN \<or> (\<exists>q. v = Fin q \<and> 0 \<le> q \<and> q \<le> 1)"
  using assms clamp01_range
  by (auto simp: trapezoidal_def split: sum.splits if_splits)

lemma generalizedBell_range:
  assumes "generalizedBell x a b c = Inr v"
  shows "v = NaN \<or> (\<exists>q. v = Fin q \<and> 0 \<le> q \<and> q \<le> 1)"
  using assms clamp01_range
  by (auto simp: generalizedBell_def Let_def split: sum.splits if_splits)

lemma sigmoid_range:
  assumes "sigmoid x a c = Inr v"
  shows "v = NaN \<or> (\<exists>q. v = Fin q \<and> 0 \<le> q \<and> q \<le> 1)"
  using assms clamp01_range
  by (auto simp: sigmoid_def Let_def split: sum.splits if_splits)

lemma singleton_range:
  assumes "singleton x c = Inr v"
  shows "v = Fin 0 \<or> v = Fin 1"
  using assms by (auto simp: singleton_def split: sum.splits if_splits)

lemma Math_exp_not_NaN: "w \<noteq> NaN \<Longrightarrow> Math_exp w \<noteq> NaN"
  by (cases w) simp_all

lemma gaussian_range:
  assumes "0 < sigma"
  shows "\<exists>q. gaussian (Fin x) (Fin mu) (Fin sigma) = Inr (Fin q) \<and> 0 \<le> q \<and> q \<le> 1"
proof -
  define z where "z = num_div (num_sub (Fin x) (Fin mu)) (Fin sigma)"
  define w where "w = num_mul (num_mul (Fin (- (1 / 2))) z) z"
  have "z \<noteq> NaN"
    unfolding z_def using assms by (cases "binary64 (x - mu)") (simp_all add: signed_inf_def)
  then have "w \<noteq> NaN"
  proof (cases z)
    case (Fin z')
    show ?thesis
    proof (cases "z' = 0")
      case True
      with Fin show ?thesis by (simp add: w_def)
    next
      case False
      with Fin show ?thesis
        unfolding w_def by (cases "binary64 (- (1 / 2) * z')") (simp_all add: signed_inf_def)
    qed
  next
    case PInf
    then show ?thesis by (simp add: w_def signed_inf_def)
  next
    case NInf
    then show ?thesis by (simp add: w_def signed_inf_def)
  next
    case NaN
    assume "z \<noteq> NaN"
    with NaN show ?thesis by simp
  qed
  then have "Math_exp w \<noteq> NaN" by (rule Math_exp_not_NaN)
  with clamp01_range [of "Math_exp w"]
  have "\<exists>q. clamp01 (Math_exp w) = Fin q \<and> 0 \<le> q \<and> q \<le> 1"
    by (cases "Math_exp w") auto
  then show ?thesis using assms by (simp add: gaussian_def Let_def z_def w_def)
qed

section \<open>Piecewise values\<close>

text \<open>
  C3, as amended. For finite \<open>a < b < c\<close> the triangular function is exactly 1 at its
  peak: \<open>triangular(b, a, b, c) = 1\<close>. (The statement for all \<open>a \<le> b \<le> c\<close> fails:
  the test \<open>x <= a || x >= c\<close> comes first and returns 0 when the peak coincides with a
  foot.)
\<close>

theorem triangular_peak:
  "a < b \<Longrightarrow> b < c \<Longrightarrow> triangular (Fin b) (Fin a) (Fin b) (Fin c) = Inr (Fin 1)"
  by (simp add: triangular_def)

theorem triangular_peak_witness:
  "(0::real) < 5 \<and> (5::real) < 10 \<and> triangular (Fin 5) (Fin 0) (Fin 5) (Fin 10) = Inr (Fin 1)"
  using triangular_peak [of 0 5 10] by simp

text \<open>
  C3 as stated fails: \<open>0 \<le> 0 \<le> 1\<close> is a valid parameterization with peak \<open>b = 0\<close>, and
  \<open>triangular(0, 0, 0, 1)\<close> is 0, not 1.
\<close>

theorem triangular_peak_counterexample:
  "(0::real) \<le> 0 \<and> (0::real) \<le> 1
   \<and> triangular (Fin 0) (Fin 0) (Fin 0) (Fin 1) = Inr (Fin 0)
   \<and> triangular (Fin 0) (Fin 0) (Fin 0) (Fin 1) \<noteq> Inr (Fin 1)"
  by (simp add: triangular_def)

text \<open>
  C4, as amended. For finite \<open>a \<le> b \<le> c \<le> d\<close> the trapezoidal function is exactly 1 at
  every \<open>x\<close> of the plateau \<open>[b, c]\<close> that lies strictly between the feet, \<open>a < x < d\<close>.
  (At \<open>x = b = a\<close> or \<open>x = c = d\<close> the boundary test \<open>x <= a || x >= d\<close> comes first and
  the value is 0.)
\<close>

theorem trapezoidal_plateau:
  "a \<le> b \<Longrightarrow> b \<le> c \<Longrightarrow> c \<le> d \<Longrightarrow> b \<le> x \<Longrightarrow> x \<le> c \<Longrightarrow> a < x \<Longrightarrow> x < d
   \<Longrightarrow> trapezoidal (Fin x) (Fin a) (Fin b) (Fin c) (Fin d) = Inr (Fin 1)"
  by (simp add: trapezoidal_def)

theorem trapezoidal_plateau_witness:
  "(0::real) \<le> 2 \<and> (2::real) \<le> 8 \<and> (8::real) \<le> 10 \<and> (2::real) \<le> 2 \<and> (0::real) < 2
   \<and> (2::real) < 10
   \<and> trapezoidal (Fin 2) (Fin 0) (Fin 2) (Fin 8) (Fin 10) = Inr (Fin 1)"
  using trapezoidal_plateau [of 0 2 8 10 2] by simp

text \<open>
  C4 as stated fails: with \<open>0 \<le> 0 \<le> 1 \<le> 2\<close> the point \<open>x = 0\<close> is in the plateau
  \<open>[0, 1]\<close>, and \<open>trapezoidal(0, 0, 0, 1, 2)\<close> is 0, not 1.
\<close>

theorem trapezoidal_plateau_counterexample:
  "(0::real) \<le> 0 \<and> (0::real) \<le> 1 \<and> (1::real) \<le> 2
   \<and> trapezoidal (Fin 0) (Fin 0) (Fin 0) (Fin 1) (Fin 2) = Inr (Fin 0)
   \<and> trapezoidal (Fin 0) (Fin 0) (Fin 0) (Fin 1) (Fin 2) \<noteq> Inr (Fin 1)"
  by (simp add: trapezoidal_def)

text \<open>
  C2, as amended. For finite \<open>a \<le> b \<le> c \<le> d\<close> and finite \<open>x\<close>:
  on the open interval \<open>(a, b)\<close> the result of \<open>piCurve(x, a, b, c, d)\<close> is the result of
  \<open>sCurve(x, a, b)\<close>; on \<open>(c, d)\<close> it is the result of \<open>zCurve(x, c, d)\<close>; it is 1 for
  every \<open>x\<close> in \<open>[b, c]\<close> with \<open>a < x < d\<close>; and it is 0 for every \<open>x \<le> a\<close> and every
  \<open>x \<ge> d\<close>, so in particular outside \<open>[a, d]\<close>. "Equals" is identity of the returned
  value (or thrown error).
\<close>

theorem piCurve_pieces:
  assumes "a \<le> b" and "b \<le> c" and "c \<le> d"
  shows "(a < x \<and> x < b \<longrightarrow>
            piCurve (Fin x) (Fin a) (Fin b) (Fin c) (Fin d) = sCurve (Fin x) (Fin a) (Fin b))
       \<and> (c < x \<and> x < d \<longrightarrow>
            piCurve (Fin x) (Fin a) (Fin b) (Fin c) (Fin d) = zCurve (Fin x) (Fin c) (Fin d))
       \<and> (b \<le> x \<and> x \<le> c \<and> a < x \<and> x < d \<longrightarrow>
            piCurve (Fin x) (Fin a) (Fin b) (Fin c) (Fin d) = Inr (Fin 1))
       \<and> (x \<le> a \<or> d \<le> x \<longrightarrow>
            piCurve (Fin x) (Fin a) (Fin b) (Fin c) (Fin d) = Inr (Fin 0))"
  using assms by (auto simp: piCurve_def)

theorem piCurve_pieces_witness:
  "piCurve (Fin 1) (Fin 0) (Fin 2) (Fin 4) (Fin 6) = sCurve (Fin 1) (Fin 0) (Fin 2)
   \<and> piCurve (Fin 5) (Fin 0) (Fin 2) (Fin 4) (Fin 6) = zCurve (Fin 5) (Fin 4) (Fin 6)
   \<and> piCurve (Fin 3) (Fin 0) (Fin 2) (Fin 4) (Fin 6) = Inr (Fin 1)
   \<and> piCurve (Fin 7) (Fin 0) (Fin 2) (Fin 4) (Fin 6) = Inr (Fin 0)"
  using piCurve_pieces [of 0 2 4 6 1] piCurve_pieces [of 0 2 4 6 5]
        piCurve_pieces [of 0 2 4 6 3] piCurve_pieces [of 0 2 4 6 7]
  by simp

text \<open>
  C2 as stated fails on the plateau: with \<open>0 \<le> 0 \<le> 1 \<le> 2\<close> the point \<open>x = 0\<close> is in
  \<open>[b, c] = [0, 1]\<close>, and \<open>piCurve(0, 0, 0, 1, 2)\<close> is 0, not 1.
\<close>

theorem piCurve_pieces_counterexample:
  "(0::real) \<le> 0 \<and> (0::real) \<le> 1 \<and> (1::real) \<le> 2
   \<and> piCurve (Fin 0) (Fin 0) (Fin 0) (Fin 1) (Fin 2) = Inr (Fin 0)
   \<and> piCurve (Fin 0) (Fin 0) (Fin 0) (Fin 1) (Fin 2) \<noteq> Inr (Fin 1)"
  by (simp add: piCurve_def)

text \<open>
  C9. For finite \<open>a \<le> b \<le> c \<le> d\<close> and finite \<open>x\<close>, \<open>piCurve(x, a, b, c, d)\<close> returns a
  value and never throws, also when \<open>a = b\<close> or \<open>c = d\<close>: the call of \<open>sCurve\<close> is
  reached only with \<open>a < x < b\<close> and the call of \<open>zCurve\<close> only with \<open>c < x < d\<close>, so
  their checks \<open>a < b\<close> and \<open>c < d\<close> pass.
\<close>

theorem piCurve_never_throws:
  "a \<le> b \<Longrightarrow> b \<le> c \<Longrightarrow> c \<le> d
   \<Longrightarrow> \<exists>v. piCurve (Fin x) (Fin a) (Fin b) (Fin c) (Fin d) = Inr v"
  by (simp add: piCurve_def sCurve_def zCurve_def Let_def)

theorem piCurve_never_throws_witness:
  "(1::real) \<le> 1 \<and> (1::real) \<le> 2 \<and> (2::real) \<le> 2
   \<and> (\<exists>v. piCurve (Fin 1) (Fin 1) (Fin 1) (Fin 2) (Fin 2) = Inr v)
   \<and> (\<exists>v. piCurve (Fin (3 / 2)) (Fin 1) (Fin 1) (Fin 2) (Fin 2) = Inr v)"
  using piCurve_never_throws [of 1 1 2 2 1] piCurve_never_throws [of 1 1 2 2 "3 / 2"]
  by simp

section \<open>The error contract\<close>

text \<open>
  C7. Every catalogue function throws on invalid parameters instead of returning a
  value: when some argument is not a finite number it throws the finiteness error, also
  when a shape constraint is violated as well (the finiteness check runs first); when
  all arguments are finite and the shape constraint is violated it throws the error of
  that constraint. \<open>leftShoulder\<close> and \<open>rightShoulder\<close> throw the errors of \<open>zCurve\<close> and
  \<open>sCurve\<close>. In particular \<open>triangular(5, 3, 2, 1)\<close> throws the ordering error,
  \<open>gaussian(0, 0, 0)\<close> the error of \<open>sigma > 0\<close>, and \<open>gaussian(0, 0, NaN)\<close> the
  finiteness error (see the witness).
\<close>

theorem invalid_parameters_throw:
  "(\<not> (isFiniteNumber x \<and> isFiniteNumber a \<and> isFiniteNumber b \<and> isFiniteNumber c) \<longrightarrow>
      finiteness_error ''triangular'' [''x'', ''a'', ''b'', ''c''] (triangular x a b c)
    \<and> finiteness_error ''generalizedBell'' [''x'', ''a'', ''b'', ''c'']
        (generalizedBell x a b c))
 \<and> (\<not> (isFiniteNumber x \<and> isFiniteNumber a \<and> isFiniteNumber b \<and> isFiniteNumber c
        \<and> isFiniteNumber d) \<longrightarrow>
      finiteness_error ''trapezoidal'' [''x'', ''a'', ''b'', ''c'', ''d'']
        (trapezoidal x a b c d)
    \<and> finiteness_error ''piCurve'' [''x'', ''a'', ''b'', ''c'', ''d''] (piCurve x a b c d))
 \<and> (\<not> (isFiniteNumber x \<and> isFiniteNumber a \<and> isFiniteNumber b) \<longrightarrow>
      finiteness_error ''gaussian'' [''x'', ''mu'', ''sigma''] (gaussian x a b)
    \<and> finiteness_error ''sigmoid'' [''x'', ''a'', ''c''] (sigmoid x a b)
    \<and> finiteness_error ''sCurve'' [''x'', ''a'', ''b''] (sCurve x a b)
    \<and> finiteness_error ''zCurve'' [''x'', ''a'', ''b''] (zCurve x a b)
    \<and> finiteness_error ''zCurve'' [''x'', ''a'', ''b''] (leftShoulder x a b)
    \<and> finiteness_error ''sCurve'' [''x'', ''a'', ''b''] (rightShoulder x a b))
 \<and> (\<not> (isFiniteNumber x \<and> isFiniteNumber a) \<longrightarrow>
      finiteness_error ''singleton'' [''x'', ''c''] (singleton x a))
 \<and> (\<not> (p \<le> q \<and> q \<le> r) \<longrightarrow>
      triangular (Fin y) (Fin p) (Fin q) (Fin r) = Inl ''triangular: require a <= b <= c'')
 \<and> (\<not> (p \<le> q \<and> q \<le> r \<and> r \<le> s) \<longrightarrow>
      trapezoidal (Fin y) (Fin p) (Fin q) (Fin r) (Fin s)
        = Inl ''trapezoidal: require a <= b <= c <= d''
    \<and> piCurve (Fin y) (Fin p) (Fin q) (Fin r) (Fin s)
        = Inl ''piCurve: require a <= b <= c <= d'')
 \<and> (\<not> 0 < q \<longrightarrow>
      gaussian (Fin y) (Fin p) (Fin q) = Inl ''gaussian: require sigma > 0'')
 \<and> (p = 0 \<longrightarrow>
      generalizedBell (Fin y) (Fin p) (Fin q) (Fin r) = Inl ''generalizedBell: require a != 0'')
 \<and> (p \<noteq> 0 \<and> \<not> 0 < q \<longrightarrow>
      generalizedBell (Fin y) (Fin p) (Fin q) (Fin r) = Inl ''generalizedBell: require b > 0'')
 \<and> (\<not> p < q \<longrightarrow>
      sCurve (Fin y) (Fin p) (Fin q) = Inl ''sCurve: require a < b''
    \<and> zCurve (Fin y) (Fin p) (Fin q) = Inl ''zCurve: require a < b''
    \<and> leftShoulder (Fin y) (Fin p) (Fin q) = Inl ''zCurve: require a < b''
    \<and> rightShoulder (Fin y) (Fin p) (Fin q) = Inl ''sCurve: require a < b'')"
proof (intro conjI impI)
  assume "\<not> (isFiniteNumber x \<and> isFiniteNumber a \<and> isFiniteNumber b \<and> isFiniteNumber c)"
  then show "finiteness_error ''triangular'' [''x'', ''a'', ''b'', ''c''] (triangular x a b c)"
    and "finiteness_error ''generalizedBell'' [''x'', ''a'', ''b'', ''c'']
           (generalizedBell x a b c)"
    by (rule triangular_nonfinite, rule generalizedBell_nonfinite)
next
  assume "\<not> (isFiniteNumber x \<and> isFiniteNumber a \<and> isFiniteNumber b \<and> isFiniteNumber c
             \<and> isFiniteNumber d)"
  then show "finiteness_error ''trapezoidal'' [''x'', ''a'', ''b'', ''c'', ''d'']
               (trapezoidal x a b c d)"
    and "finiteness_error ''piCurve'' [''x'', ''a'', ''b'', ''c'', ''d''] (piCurve x a b c d)"
    by (rule trapezoidal_nonfinite, rule piCurve_nonfinite)
next
  assume nf: "\<not> (isFiniteNumber x \<and> isFiniteNumber a \<and> isFiniteNumber b)"
  show "finiteness_error ''gaussian'' [''x'', ''mu'', ''sigma''] (gaussian x a b)"
    using nf by (rule gaussian_nonfinite)
  show "finiteness_error ''sigmoid'' [''x'', ''a'', ''c''] (sigmoid x a b)"
    using nf by (rule sigmoid_nonfinite)
  show "finiteness_error ''sCurve'' [''x'', ''a'', ''b''] (sCurve x a b)"
    using nf by (rule sCurve_nonfinite)
  show "finiteness_error ''zCurve'' [''x'', ''a'', ''b''] (zCurve x a b)"
    using nf by (rule zCurve_nonfinite)
  show "finiteness_error ''zCurve'' [''x'', ''a'', ''b''] (leftShoulder x a b)"
    unfolding leftShoulder_def using nf by (rule zCurve_nonfinite)
  show "finiteness_error ''sCurve'' [''x'', ''a'', ''b''] (rightShoulder x a b)"
    unfolding rightShoulder_def using nf by (rule sCurve_nonfinite)
next
  assume "\<not> (isFiniteNumber x \<and> isFiniteNumber a)"
  then show "finiteness_error ''singleton'' [''x'', ''c''] (singleton x a)"
    by (rule singleton_nonfinite)
next
  assume "\<not> (p \<le> q \<and> q \<le> r)"
  then show "triangular (Fin y) (Fin p) (Fin q) (Fin r)
             = Inl ''triangular: require a <= b <= c''"
    by (rule triangular_constraint)
next
  assume ord: "\<not> (p \<le> q \<and> q \<le> r \<and> r \<le> s)"
  show "trapezoidal (Fin y) (Fin p) (Fin q) (Fin r) (Fin s)
        = Inl ''trapezoidal: require a <= b <= c <= d''"
    using ord by (rule trapezoidal_constraint)
  show "piCurve (Fin y) (Fin p) (Fin q) (Fin r) (Fin s)
        = Inl ''piCurve: require a <= b <= c <= d''"
    using ord by (rule piCurve_constraint)
next
  assume "\<not> 0 < q"
  then show "gaussian (Fin y) (Fin p) (Fin q) = Inl ''gaussian: require sigma > 0''"
    by (rule gaussian_constraint)
next
  assume "p = 0"
  then show "generalizedBell (Fin y) (Fin p) (Fin q) (Fin r)
             = Inl ''generalizedBell: require a != 0''"
    using generalizedBell_constraint [of p q y r] by simp
next
  assume "p \<noteq> 0 \<and> \<not> 0 < q"
  then show "generalizedBell (Fin y) (Fin p) (Fin q) (Fin r)
             = Inl ''generalizedBell: require b > 0''"
    using generalizedBell_constraint [of p q y r] by simp
next
  assume lt: "\<not> p < q"
  show "sCurve (Fin y) (Fin p) (Fin q) = Inl ''sCurve: require a < b''"
    using lt by (rule sCurve_constraint)
  show "zCurve (Fin y) (Fin p) (Fin q) = Inl ''zCurve: require a < b''"
    using lt by (rule zCurve_constraint)
  show "leftShoulder (Fin y) (Fin p) (Fin q) = Inl ''zCurve: require a < b''"
    unfolding leftShoulder_def using lt by (rule zCurve_constraint)
  show "rightShoulder (Fin y) (Fin p) (Fin q) = Inl ''sCurve: require a < b''"
    unfolding rightShoulder_def using lt by (rule sCurve_constraint)
qed

theorem invalid_parameters_throw_witness:
  "triangular (Fin 5) (Fin 3) (Fin 2) (Fin 1) = Inl ''triangular: require a <= b <= c''
   \<and> gaussian (Fin 0) (Fin 0) (Fin 0) = Inl ''gaussian: require sigma > 0''
   \<and> finiteness_error ''gaussian'' [''x'', ''mu'', ''sigma''] (gaussian (Fin 0) (Fin 0) NaN)
   \<and> gaussian (Fin 0) (Fin 0) NaN
       = Inl (''gaussian: parameter '' @ [CHR 0x27] @ ''sigma'' @ [CHR 0x27]
             @ '' must be a finite number.'')"
proof -
  have "triangular (Fin 5) (Fin 3) (Fin 2) (Fin 1) = Inl ''triangular: require a <= b <= c''"
    using invalid_parameters_throw [of _ _ _ _ _ 3 2 1 5] by simp
  moreover have "gaussian (Fin 0) (Fin 0) (Fin 0) = Inl ''gaussian: require sigma > 0''"
    using invalid_parameters_throw [of _ _ _ _ _ 0 0 _ 0] by simp
  moreover have fe:
    "finiteness_error ''gaussian'' [''x'', ''mu'', ''sigma''] (gaussian (Fin 0) (Fin 0) NaN)"
    using invalid_parameters_throw [of "Fin 0" "Fin 0" NaN] by simp
  moreover have "gaussian (Fin 0) (Fin 0) NaN
       = Inl (''gaussian: parameter '' @ [CHR 0x27] @ ''sigma'' @ [CHR 0x27]
             @ '' must be a finite number.'')"
    by (simp add: gaussian_def finite_message_def)
  ultimately show ?thesis by simp
qed

text \<open>
  C8, as amended. Every error raised by a catalogue function carries a message of the
  form \<open>name: description\<close>, where \<open>name\<close> is the function that ran the validation:
  the invoked function itself for \<open>triangular\<close>, \<open>trapezoidal\<close>, \<open>gaussian\<close>,
  \<open>generalizedBell\<close>, \<open>sigmoid\<close>, \<open>sCurve\<close>, \<open>zCurve\<close>, \<open>piCurve\<close> and \<open>singleton\<close>;
  \<open>zCurve\<close> for \<open>leftShoulder\<close> and \<open>sCurve\<close> for \<open>rightShoulder\<close>, which delegate
  without a validation of their own.
\<close>

theorem errors_name_validating_function:
  "(triangular x a b c = Inl m \<longrightarrow> names_function ''triangular'' m)
 \<and> (trapezoidal x a b c d = Inl m \<longrightarrow> names_function ''trapezoidal'' m)
 \<and> (gaussian x a b = Inl m \<longrightarrow> names_function ''gaussian'' m)
 \<and> (generalizedBell x a b c = Inl m \<longrightarrow> names_function ''generalizedBell'' m)
 \<and> (sigmoid x a b = Inl m \<longrightarrow> names_function ''sigmoid'' m)
 \<and> (sCurve x a b = Inl m \<longrightarrow> names_function ''sCurve'' m)
 \<and> (zCurve x a b = Inl m \<longrightarrow> names_function ''zCurve'' m)
 \<and> (piCurve x a b c d = Inl m \<longrightarrow> names_function ''piCurve'' m)
 \<and> (singleton x a = Inl m \<longrightarrow> names_function ''singleton'' m)
 \<and> (leftShoulder x a b = Inl m \<longrightarrow> names_function ''zCurve'' m)
 \<and> (rightShoulder x a b = Inl m \<longrightarrow> names_function ''sCurve'' m)"
  unfolding leftShoulder_def rightShoulder_def
  by (intro conjI impI)
     (erule triangular_error_names trapezoidal_error_names gaussian_error_names
        generalizedBell_error_names sigmoid_error_names sCurve_error_names
        zCurve_error_names piCurve_error_names singleton_error_names)+

theorem errors_name_validating_function_witness:
  "triangular (Fin 5) (Fin 3) (Fin 2) (Fin 1) = Inl ''triangular: require a <= b <= c''
   \<and> names_function ''triangular'' ''triangular: require a <= b <= c''
   \<and> leftShoulder NaN (Fin 0) (Fin 1) = Inl (finite_message ''zCurve'' ''x'')
   \<and> names_function ''zCurve'' (finite_message ''zCurve'' ''x'')
   \<and> rightShoulder (Fin 0) (Fin 1) (Fin 1) = Inl ''sCurve: require a < b''
   \<and> names_function ''sCurve'' ''sCurve: require a < b''"
proof -
  have t: "triangular (Fin 5) (Fin 3) (Fin 2) (Fin 1) = Inl ''triangular: require a <= b <= c''"
    by (simp add: triangular_def)
  have l: "leftShoulder NaN (Fin 0) (Fin 1) = Inl (finite_message ''zCurve'' ''x'')"
    by (simp add: leftShoulder_def zCurve_def)
  have r: "rightShoulder (Fin 0) (Fin 1) (Fin 1) = Inl ''sCurve: require a < b''"
    by (simp add: rightShoulder_def sCurve_def)
  from t l r
    errors_name_validating_function
      [of "Fin 5" "Fin 3" "Fin 2" "Fin 1" "''triangular: require a <= b <= c''"]
    errors_name_validating_function
      [of NaN "Fin 0" "Fin 1" _ "finite_message ''zCurve'' ''x''"]
    errors_name_validating_function
      [of "Fin 0" "Fin 1" "Fin 1" _ "''sCurve: require a < b''"]
  show ?thesis by simp
qed

text \<open>
  C8 as stated fails for the shoulders: with a non-finite argument or with \<open>a \<ge> b\<close>,
  \<open>leftShoulder\<close> throws a message that names \<open>zCurve\<close> and \<open>rightShoulder\<close> one that
  names \<open>sCurve\<close>.
\<close>

theorem error_names_shoulder_counterexample:
  "leftShoulder NaN (Fin 0) (Fin 1) = Inl (finite_message ''zCurve'' ''x'')
   \<and> \<not> names_function ''leftShoulder'' (finite_message ''zCurve'' ''x'')
   \<and> leftShoulder (Fin 0) (Fin 1) (Fin 1) = Inl ''zCurve: require a < b''
   \<and> \<not> names_function ''leftShoulder'' ''zCurve: require a < b''
   \<and> rightShoulder NaN (Fin 0) (Fin 1) = Inl (finite_message ''sCurve'' ''x'')
   \<and> \<not> names_function ''rightShoulder'' (finite_message ''sCurve'' ''x'')
   \<and> rightShoulder (Fin 0) (Fin 1) (Fin 1) = Inl ''sCurve: require a < b''
   \<and> \<not> names_function ''rightShoulder'' ''sCurve: require a < b''"
  by (simp add: leftShoulder_def rightShoulder_def zCurve_def sCurve_def names_function_def
        finite_message_def)

section \<open>Degenerate ramps\<close>

text \<open>For binary64 parameters the \<^verbatim>\<open>Number.EPSILON\<close> fallback is never used: a ramp
  branch is entered only between two distinct parameters, whose difference does not
  round to zero, so each function returns what the piecewise formula with the plain
  denominators returns.\<close>

lemma or_else_binary64:
  assumes "is_binary64 p" and "is_binary64 q" and "p < q"
  shows "or_else (binary64 (q - p)) Number_EPSILON = binary64 (q - p)"
  using or_else_difference [OF assms] by simp

lemma triangular_no_fallback:
  assumes "is_binary64 a" and "is_binary64 b" and "is_binary64 c" and "a \<le> b" and "b \<le> c"
  shows "triangular (Fin x) (Fin a) (Fin b) (Fin c)
         = Inr (if x \<le> a \<or> c \<le> x then Fin 0
                else if x = b then Fin 1
                else if x < b
                  then clamp01 (num_div (num_sub (Fin x) (Fin a)) (num_sub (Fin b) (Fin a)))
                else clamp01 (num_div (num_sub (Fin c) (Fin x)) (num_sub (Fin c) (Fin b))))"
proof -
  have "x < b \<Longrightarrow> a < x \<Longrightarrow> or_else (binary64 (b - a)) Number_EPSILON = binary64 (b - a)"
    using assms(1,2) by (intro or_else_binary64) simp_all
  moreover
  have "b < x \<Longrightarrow> x < c \<Longrightarrow> or_else (binary64 (c - b)) Number_EPSILON = binary64 (c - b)"
    using assms(2,3) by (intro or_else_binary64) simp_all
  ultimately show ?thesis
    using assms(4,5) by (simp add: triangular_def del: clamp01_simps)
qed

lemma trapezoidal_no_fallback:
  assumes "is_binary64 a" and "is_binary64 b" and "is_binary64 c" and "is_binary64 d"
    and "a \<le> b" and "b \<le> c" and "c \<le> d"
  shows "trapezoidal (Fin x) (Fin a) (Fin b) (Fin c) (Fin d)
         = Inr (if x \<le> a \<or> d \<le> x then Fin 0
                else if b \<le> x \<and> x \<le> c then Fin 1
                else if x < b
                  then clamp01 (num_div (num_sub (Fin x) (Fin a)) (num_sub (Fin b) (Fin a)))
                else clamp01 (num_div (num_sub (Fin d) (Fin x)) (num_sub (Fin d) (Fin c))))"
proof -
  have "x < b \<Longrightarrow> a < x \<Longrightarrow> or_else (binary64 (b - a)) Number_EPSILON = binary64 (b - a)"
    using assms(1,2) by (intro or_else_binary64) simp_all
  moreover
  have "c < x \<Longrightarrow> x < d \<Longrightarrow> or_else (binary64 (d - c)) Number_EPSILON = binary64 (d - c)"
    using assms(3,4) by (intro or_else_binary64) simp_all
  ultimately show ?thesis
    using assms(5,6,7) by (simp add: trapezoidal_def del: clamp01_simps)
qed




section \<open>Complement\<close>

text \<open>
  C6, as amended. For every binary64 value \<open>\<mu>\<close> in \<open>[0, 1]\<close> whose difference \<open>1 - \<mu>\<close> is
  again a binary64 value (the subtraction is exact), \<open>complement(\<mu>) = 1 - \<mu>\<close> and
  \<open>complement(complement(\<mu>)) = \<mu>\<close>. For every finite \<open>\<mu>\<close> outside \<open>[0, 1]\<close>,
  \<open>complement(\<mu>)\<close> does not throw and returns \<open>1 - \<mu>\<close> clamped to \<open>[0, 1]\<close>: 1 for
  \<open>\<mu> < 0\<close> and 0 for \<open>\<mu> > 1\<close>.
\<close>

theorem complement_round_trip:
  "(0 \<le> m \<and> m \<le> 1 \<and> is_binary64 m \<and> is_binary64 (1 - m) \<longrightarrow>
      complement (Fin m) = Inr (Fin (1 - m)) \<and> complement (Fin (1 - m)) = Inr (Fin m))
   \<and> (m < 0 \<longrightarrow> complement (Fin m) = Inr (Fin 1))
   \<and> (1 < m \<longrightarrow> complement (Fin m) = Inr (Fin 0))"
proof (intro conjI impI)
  assume a: "0 \<le> m \<and> m \<le> 1 \<and> is_binary64 m \<and> is_binary64 (1 - m)"
  then show "complement (Fin m) = Inr (Fin (1 - m))"
    by (simp add: complement_Fin is_binary64_def)
  from a show "complement (Fin (1 - m)) = Inr (Fin m)"
    by (simp add: complement_Fin is_binary64_def)
next
  assume "m < 0"
  then have "1 \<le> 1 - m" by simp
  from binary64_ge_1 [OF this] show "complement (Fin m) = Inr (Fin 1)"
    by (auto simp: complement_Fin)
next
  assume "1 < m"
  then have "1 - m \<le> 0" by simp
  from binary64_nonpos [OF this] show "complement (Fin m) = Inr (Fin 0)"
    by (auto simp: complement_Fin)
qed

theorem complement_round_trip_witness:
  "complement (Fin (1 / 4)) = Inr (Fin (3 / 4)) \<and> complement (Fin (3 / 4)) = Inr (Fin (1 / 4))
   \<and> complement (Fin (- 1)) = Inr (Fin 1) \<and> complement (Fin 2) = Inr (Fin 0)"
  using complement_round_trip [of "1 / 4"] complement_round_trip [of "- 1"]
        complement_round_trip [of 2] is_binary64_quarter
  by simp

text \<open>
  C6 as stated fails: \<open>\<mu> = 2 ^ -60\<close> is a binary64 value in \<open>[0, 1]\<close>, \<open>1 - \<mu>\<close> rounds
  to 1, and \<open>complement(complement(\<mu>))\<close> is 0, not \<open>\<mu>\<close>.
\<close>

theorem complement_round_trip_counterexample:
  "(0::real) \<le> 1 / 2 ^ 60 \<and> (1::real) / 2 ^ 60 \<le> 1 \<and> is_binary64 (1 / 2 ^ 60)
   \<and> complement (Fin (1 / 2 ^ 60)) = Inr (Fin 1)
   \<and> complement (Fin 1) = Inr (Fin 0)
   \<and> Fin 0 \<noteq> Fin (1 / 2 ^ 60)"
proof -
  have "is_binary64 (1 / 2 ^ 60)"
    unfolding is_binary64_def by (rule binary64_exactI [of _ 1 1014]) simp_all
  moreover have "binary64 (1 + - (1 / 2 ^ 60)) = Fin 1"
    by (rule binary64_near_1) simp
  then have "complement (Fin (1 / 2 ^ 60)) = Inr (Fin 1)"
    by (simp add: complement_Fin)
  moreover have "complement (Fin 1) = Inr (Fin 0)" by (simp add: complement_Fin)
  ultimately show ?thesis by simp
qed

section \<open>Overflow\<close>

text \<open>
  C1. The claim that every catalogue function returns a value of \<open>[0, 1]\<close> for every
  finite input and valid parameters fails on the code: the arguments below are
  binary64 values with \<open>a \<le> b \<le> c\<close> and \<open>a < x < b\<close>; both differences \<open>x - a\<close> and
  \<open>b - a\<close> overflow to \<open>Infinity\<close>, their quotient is NaN, \<^verbatim>\<open>clamp01\<close> passes NaN
  through (both of its comparisons are false), and \<open>triangular\<close> returns NaN, which is
  not a value of \<open>[0, 1]\<close>.
\<close>

theorem triangular_overflow_NaN:
  "is_binary64 (2 ^ 1023) \<and> is_binary64 (- (2 ^ 1023)) \<and> is_binary64 (3 * 2 ^ 1022)
   \<and> is_binary64 (7 * 2 ^ 1021)
   \<and> - (2 ^ 1023) \<le> (3 * 2 ^ 1022 :: real) \<and> 3 * 2 ^ 1022 \<le> (7 * 2 ^ 1021 :: real)
   \<and> triangular (Fin (2 ^ 1023)) (Fin (- (2 ^ 1023))) (Fin (3 * 2 ^ 1022)) (Fin (7 * 2 ^ 1021))
       = Inr NaN"
proof -
  have "is_binary64 (2 ^ 1023)"
    unfolding is_binary64_def by (rule binary64_exactI [of _ "2 ^ 52" 2045]) simp_all
  moreover have "is_binary64 (- (2 ^ 1023))"
    unfolding is_binary64_def by (rule binary64_exactI [of _ "- (2 ^ 52)" 2045]) simp_all
  moreover have "is_binary64 (3 * 2 ^ 1022)"
    unfolding is_binary64_def by (rule binary64_exactI [of _ "3 * 2 ^ 51" 2045]) simp_all
  moreover have "is_binary64 (7 * 2 ^ 1021)"
    unfolding is_binary64_def by (rule binary64_exactI [of _ "7 * 2 ^ 50" 2045]) simp_all
  moreover have "binary64 (2 ^ 1023 - - (2 ^ 1023)) = PInf"
    by (rule binary64_overflow) simp
  moreover have "binary64 (3 * 2 ^ 1022 - - (2 ^ 1023)) = PInf"
    by (rule binary64_overflow) simp
  ultimately show ?thesis
    by (simp add: triangular_def or_else_def)
qed

text \<open>
  C5. The claim that \<open>sCurve(x, a, b) + zCurve(x, a, b) = 1\<close> for all finite \<open>a < b\<close> and
  \<open>x\<close> fails on the code at the same overflow: for the binary64 arguments below,
  \<open>a < x < b\<close>, the quotient \<open>t\<close> is NaN, both curves return NaN, and their sum is NaN.
\<close>

theorem sCurve_zCurve_overflow_NaN:
  "is_binary64 (2 ^ 1023) \<and> is_binary64 (- (2 ^ 1023)) \<and> is_binary64 (3 * 2 ^ 1022)
   \<and> - (2 ^ 1023) < (3 * 2 ^ 1022 :: real)
   \<and> sCurve (Fin (2 ^ 1023)) (Fin (- (2 ^ 1023))) (Fin (3 * 2 ^ 1022)) = Inr NaN
   \<and> zCurve (Fin (2 ^ 1023)) (Fin (- (2 ^ 1023))) (Fin (3 * 2 ^ 1022)) = Inr NaN
   \<and> num_add NaN NaN = NaN \<and> NaN \<noteq> Fin 1"
proof -
  have "is_binary64 (2 ^ 1023)"
    unfolding is_binary64_def by (rule binary64_exactI [of _ "2 ^ 52" 2045]) simp_all
  moreover have "is_binary64 (- (2 ^ 1023))"
    unfolding is_binary64_def by (rule binary64_exactI [of _ "- (2 ^ 52)" 2045]) simp_all
  moreover have "is_binary64 (3 * 2 ^ 1022)"
    unfolding is_binary64_def by (rule binary64_exactI [of _ "3 * 2 ^ 51" 2045]) simp_all
  ultimately show ?thesis
    using sCurve_overflow zCurve_overflow by simp
qed

end
